theory Spec2Isabelle
  imports Complex_Main
begin

section \<open>The dwarf filter of DwarfGalaxiesInSmash\_WithExercises.ipynb\<close>

text \<open>
  The notebook defines one function, \<^verbatim>\<open>dwarf_filter(ra, dec, fwhm_small, fwhm_big)\<close>, and a
  cell that runs a peak finder on its output and maps the peaks' pixel indices to sky
  coordinates. Both are embedded here. Python floats are modelled by the reals, so the
  results below are statements of exact arithmetic. Values that are not finite enter only
  where the function meets them, in its first statements; they are treated in a section
  of their own. A one-dimensional array is a list, a two-dimensional array the list of
  its rows.
\<close>

subsection \<open>Errors\<close>

text \<open>
  \<open>ValueError\<close> and \<open>IndexError\<close> are the exceptions the numeric library raises on the
  paths modelled here, \<open>TypeError\<close> is what Python raises when \<open>None\<close> is subscripted.
  \<open>InvalidInputError\<close> is the class the specification names; no statement of the
  notebook raises it.
\<close>

datatype error = InvalidInputError | ValueError | IndexError | TypeError

definition bind :: "error + 'a \<Rightarrow> ('a \<Rightarrow> error + 'b) \<Rightarrow> error + 'b" where
  "bind m f = (case m of Inl e \<Rightarrow> Inl e | Inr v \<Rightarrow> f v)"

subsection \<open>Arrays\<close>

type_synonym array1 = "real list"
type_synonym array2 = "real list list"

definition nrows :: "array2 \<Rightarrow> nat" where
  "nrows a = length a"

definition ncols :: "array2 \<Rightarrow> nat" where
  "ncols a = (case a of [] \<Rightarrow> 0 | r # _ \<Rightarrow> length r)"

text \<open>\<^verbatim>\<open>a.shape\<close> of a two-dimensional array.\<close>

definition shape :: "array2 \<Rightarrow> nat \<times> nat" where
  "shape a = (nrows a, ncols a)"

text \<open>Every row has the width \<open>ncols\<close> reports: the list of rows is a proper 2D array.\<close>

definition rect :: "array2 \<Rightarrow> bool" where
  "rect a = list_all (\<lambda>r. length r = ncols a) a"

text \<open>
  \<^verbatim>\<open>a.min()\<close> and \<open>a.max()\<close> of an array of finite values: a reduction of an empty array
  raises ValueError. The reductions of a pandas Series, which the notebook passes, and
  entries that are not finite are the subject of the section on floats below.
\<close>

definition amin :: "array1 \<Rightarrow> error + real" where
  "amin a = (if a = [] then Inl ValueError else Inr (Min (set a)))"

definition amax :: "array1 \<Rightarrow> error + real" where
  "amax a = (if a = [] then Inl ValueError else Inr (Max (set a)))"

text \<open>
  \<^verbatim>\<open>np.rint\<close> rounds to the nearest integer, halves to the even neighbour.
  \<^verbatim>\<open>.astype('int')\<close> converts to a 64-bit integer; a value outside its range becomes
  \<open>- 2 ^ 63\<close> (the result of the conversion on x86-64).
\<close>

definition rint :: "real \<Rightarrow> int" where
  "rint v = (let f = \<lfloor>v\<rfloor>; d = v - of_int f in
             if d < 1 / 2 then f else if 1 / 2 < d then f + 1
             else if even f then f else f + 1)"

definition astype_int64 :: "int \<Rightarrow> int" where
  "astype_int64 n = (if - (2 ^ 63) \<le> n \<and> n < 2 ^ 63 then n else - (2 ^ 63))"

text \<open>\<^verbatim>\<open>a.T\<close> of an array with \<open>n\<close> columns: entry \<open>(j, i)\<close> is entry \<open>(i, j)\<close> of \<open>a\<close>.\<close>

definition transpose_n :: "nat \<Rightarrow> array2 \<Rightarrow> array2" where
  "transpose_n n a = map (\<lambda>j. map (\<lambda>r. r ! j) a) [0..<n]"

text \<open>
  \<^verbatim>\<open>a - b\<close> for two arrays of one shape (the only case the notebook has: both operands
  are convolutions of the same histogram), \<^verbatim>\<open>np.mean\<close> and \<^verbatim>\<open>np.std\<close> over all
  entries (population statistics). On an array without entries numpy yields NaN; the
  division by zero of HOL yields 0 there, a case the filter never reaches.
\<close>

definition arr_sub :: "array2 \<Rightarrow> array2 \<Rightarrow> array2" where
  "arr_sub a b = map2 (map2 (-)) a b"

definition np_mean :: "array2 \<Rightarrow> real" where
  "np_mean a = sum_list (concat a) / real (length (concat a))"

definition np_std :: "array2 \<Rightarrow> real" where
  "np_std a = (let m = np_mean a in sqrt (np_mean (map (map (\<lambda>v. (v - m)\<^sup>2)) a)))"

text \<open>
  \<^verbatim>\<open>delta < floor\<close> is a boolean mask of the shape of \<open>delta\<close>;
  \<^verbatim>\<open>clipped[mask] = floor\<close> overwrites the entries of \<open>clipped\<close> where the mask is set.
\<close>

definition less_mask :: "array2 \<Rightarrow> real \<Rightarrow> bool list list" where
  "less_mask a v = map (map (\<lambda>x. x < v)) a"

definition mask_assign :: "array2 \<Rightarrow> bool list list \<Rightarrow> real \<Rightarrow> array2" where
  "mask_assign a m v = map2 (map2 (\<lambda>x b. if b then v else x)) a m"

subsection \<open>The library calls\<close>

text \<open>
  Modelled from the spec: \<^verbatim>\<open>np.histogram2d\<close> is a routine of the numeric library, not of
  the repository. The specification asks for a 2D histogram of counts over (ra, dec) with
  the given bin counts, whose edges span the data from minimum to maximum, and for a
  failure when an axis has no bin. The model follows the library's documented conventions:
  \<open>n\<close> bins of equal width between the minimum and the maximum of the data (widened by
  one half to each side when the two are equal), every bin half-open except the last,
  which includes its right edge; ValueError when the two samples differ in length or a
  bin count is below one. The bin of a value is found as the library does: the number of
  edges not above it, less one on the last edge.
\<close>

definition linspace :: "real \<Rightarrow> real \<Rightarrow> nat \<Rightarrow> array1" where
  "linspace start stop num =
     (map (\<lambda>i. start + real i * ((stop - start) / real (num - 1))) [0..<num])
       [num - 1 := stop]"

definition outer_edges :: "array1 \<Rightarrow> real \<times> real" where
  "outer_edges a =
     (if a = [] then (0, 1)
      else let lo = Min (set a); hi = Max (set a) in
        if lo = hi then (lo - 1 / 2, hi + 1 / 2) else (lo, hi))"

definition bin_edges :: "array1 \<Rightarrow> nat \<Rightarrow> array1" where
  "bin_edges a n = (case outer_edges a of (lo, hi) \<Rightarrow> linspace lo hi (n + 1))"

definition searchsorted_right :: "array1 \<Rightarrow> real \<Rightarrow> nat" where
  "searchsorted_right edges v = length (filter (\<lambda>e. e \<le> v) edges)"

definition bin_index :: "array1 \<Rightarrow> real \<Rightarrow> nat" where
  "bin_index edges v =
     (let k = searchsorted_right edges v in if v = last edges then k - 1 else k)"

definition histogram2d ::
  "array1 \<Rightarrow> array1 \<Rightarrow> int \<times> int \<Rightarrow> error + (array2 \<times> array1 \<times> array1)" where
  "histogram2d x y bins =
     (if length x \<noteq> length y then Inl ValueError
      else if fst bins < 1 then Inl ValueError
      else if snd bins < 1 then Inl ValueError
      else
        let bx = nat (fst bins); by = nat (snd bins);
            xedges = bin_edges x bx; yedges = bin_edges y by;
            ix = map (bin_index xedges) x; iy = map (bin_index yedges) y;
            hist = map (\<lambda>i. map (\<lambda>j.
                     real (length (filter (\<lambda>p. p = (i + 1, j + 1)) (zip ix iy))))
                     [0..<by]) [0..<bx]
        in Inr (hist, xedges, yedges))"

text \<open>
  \<^verbatim>\<open>convolution.Gaussian2DKernel(x_stddev, factor=1)\<close> and
  \<^verbatim>\<open>convolution.convolve(array, kernel)\<close> belong to the astronomy library. A kernel is
  kept as its parameters; the second standard deviation defaults to the first. The
  convolution returns an array of the shape of its input; the value it puts at pixel
  \<open>(i, j)\<close> is left to the parameter \<open>cv\<close>, so every result below holds for whatever the
  library computes there. The two calls are modelled for the positive widths they are
  meant for: the library raises on a zero or negative width, which the model does not
  follow, and no statement below says that a run with given widths returns.
\<close>

record kernel =
  x_stddev :: real
  y_stddev :: real
  factor :: nat

definition Gaussian2DKernel :: "real \<Rightarrow> nat \<Rightarrow> kernel" where
  "Gaussian2DKernel s f = \<lparr>x_stddev = s, y_stddev = s, factor = f\<rparr>"

type_synonym conv = "array2 \<Rightarrow> kernel \<Rightarrow> nat \<Rightarrow> nat \<Rightarrow> real"

definition convolve :: "conv \<Rightarrow> array2 \<Rightarrow> kernel \<Rightarrow> array2" where
  "convolve cv a k = map (\<lambda>i. map (\<lambda>j. cv a k i j) [0..<ncols a]) [0..<nrows a]"

subsection \<open>dwarf\_filter\<close>

text \<open>
  The local variables of \<^verbatim>\<open>dwarf_filter\<close>, one field each, under the names of the
  source (\<open>floor\<close> is \<open>floorv\<close> here). The four-element list \<open>extent\<close> is a quadruple.
\<close>

record locals =
  ymean :: real
  ydiff_arcmin :: real
  xdiff :: real
  xmean :: real
  xdiff_angular :: real
  xdiff_angular_arcmin :: real
  nx :: int
  ny :: int
  Counts :: array2
  xedges :: array1
  yedges :: array1
  extent :: "real \<times> real \<times> real \<times> real"
  raw_hist :: array2
  kernel_small :: kernel
  kernel_big :: kernel
  conv_big :: array2
  conv_small :: array2
  conv_delta :: array2
  delta :: array2
  mean :: real
  sigma :: real
  sigmaRaw :: real
  floorv :: real
  clipped :: array2

text \<open>
  The body of the function, statement by statement. \<open>y.min()\<close> is the first call that can
  fail, \<open>x.max()\<close> the next, \<open>np.histogram2d\<close> the last.
\<close>

definition dwarf_filter_locals ::
  "conv \<Rightarrow> array1 \<Rightarrow> array1 \<Rightarrow> real \<Rightarrow> real \<Rightarrow> error + locals" where
  "dwarf_filter_locals cv ra dec fwhm_small fwhm_big =
     bind (amin dec) (\<lambda>ymin. bind (amax dec) (\<lambda>ymax.
     bind (amax ra) (\<lambda>xmax. bind (amin ra) (\<lambda>xmin.
       let ymean' = (ymin + ymax) / 2;
           ydiff_arcmin' = (ymax - ymin) * 60;
           xdiff' = xmax - xmin;
           xmean' = (xmin + xmax) / 2;
           xdiff_angular' = (xmax - xmin) * cos (ymean' * (pi / 180));
           xdiff_angular_arcmin' = xdiff_angular' * 60;
           nx' = astype_int64 (rint xdiff_angular_arcmin');
           ny' = astype_int64 (rint ydiff_arcmin')
       in bind (histogram2d ra dec (nx', ny')) (\<lambda>(Counts', xedges', yedges').
         let extent' = (hd xedges', last xedges', hd yedges', last yedges');
             raw_hist' = transpose_n (nat ny') Counts';
             kernel_small' = Gaussian2DKernel (fwhm_small / (235 / 100)) 1;
             kernel_big' = Gaussian2DKernel (fwhm_big / (235 / 100)) 1;
             conv_big' = convolve cv raw_hist' kernel_big';
             conv_small' = convolve cv raw_hist' kernel_small';
             conv_delta' = arr_sub conv_small' conv_big';
             delta' = conv_delta';
             mean' = np_mean delta';
             sigma' = np_std delta';
             sigmaRaw' = np_std raw_hist';
             floor' = mean';
             clipped' = mask_assign delta' (less_mask delta' floor') floor'
         in Inr \<lparr>ymean = ymean', ydiff_arcmin = ydiff_arcmin', xdiff = xdiff',
                  xmean = xmean', xdiff_angular = xdiff_angular',
                  xdiff_angular_arcmin = xdiff_angular_arcmin', nx = nx', ny = ny',
                  Counts = Counts', xedges = xedges', yedges = yedges',
                  extent = extent', raw_hist = raw_hist',
                  kernel_small = kernel_small', kernel_big = kernel_big',
                  conv_big = conv_big', conv_small = conv_small',
                  conv_delta = conv_delta', delta = delta', mean = mean',
                  sigma = sigma', sigmaRaw = sigmaRaw', floorv = floor',
                  clipped = clipped'\<rparr>)))))"

text \<open>\<^verbatim>\<open>return raw_hist, extent, delta, clipped, sigma\<close>\<close>

definition dwarf_filter ::
  "conv \<Rightarrow> array1 \<Rightarrow> array1 \<Rightarrow> real \<Rightarrow> real
     \<Rightarrow> error + (array2 \<times> (real \<times> real \<times> real \<times> real) \<times> array2 \<times> array2 \<times> real)" where
  "dwarf_filter cv ra dec fwhm_small fwhm_big =
     bind (dwarf_filter_locals cv ra dec fwhm_small fwhm_big)
       (\<lambda>L. Inr (raw_hist L, extent L, delta L, clipped L, sigma L))"

subsection \<open>dwarf\_filter over a store of array objects\<close>

text \<open>
  Arrays are objects: a name holds a reference, \<^verbatim>\<open>.copy()\<close> and every library call
  that returns an array allocate a fresh object, and \<^verbatim>\<open>clipped[delta < floor] = floor\<close>
  writes into the object \<open>clipped\<close> refers to. The store is the list of the objects
  allocated so far; a reference is a position in it. The function below is the same
  body as above, with each array statement acting on the store, and returns the
  references of the three arrays of its result together with the final store.
\<close>

type_synonym ref = nat
type_synonym store = "array2 list"

definition alloc :: "store \<Rightarrow> array2 \<Rightarrow> ref \<times> store" where
  "alloc s a = (length s, s @ [a])"

definition load :: "store \<Rightarrow> ref \<Rightarrow> array2" where
  "load s r = s ! r"

definition overwrite :: "store \<Rightarrow> ref \<Rightarrow> array2 \<Rightarrow> store" where
  "overwrite s r a = s[r := a]"

definition dwarf_filter_store ::
  "conv \<Rightarrow> array1 \<Rightarrow> array1 \<Rightarrow> real \<Rightarrow> real \<Rightarrow> store
     \<Rightarrow> error + ((ref \<times> (real \<times> real \<times> real \<times> real) \<times> ref \<times> ref \<times> real) \<times> store)" where
  "dwarf_filter_store cv ra dec fwhm_small fwhm_big s =
     bind (amin dec) (\<lambda>ymin. bind (amax dec) (\<lambda>ymax.
     bind (amax ra) (\<lambda>xmax. bind (amin ra) (\<lambda>xmin.
       let ymean' = (ymin + ymax) / 2;
           ydiff_arcmin' = (ymax - ymin) * 60;
           xdiff_angular' = (xmax - xmin) * cos (ymean' * (pi / 180));
           xdiff_angular_arcmin' = xdiff_angular' * 60;
           nx' = astype_int64 (rint xdiff_angular_arcmin');
           ny' = astype_int64 (rint ydiff_arcmin')
       in bind (histogram2d ra dec (nx', ny')) (\<lambda>(hist, xedges', yedges').
         let (Counts', s1) = alloc s hist;
             extent' = (hd xedges', last xedges', hd yedges', last yedges');
             (raw_hist', s2) = alloc s1 (transpose_n (nat ny') (load s1 Counts'));
             kernel_small' = Gaussian2DKernel (fwhm_small / (235 / 100)) 1;
             kernel_big' = Gaussian2DKernel (fwhm_big / (235 / 100)) 1;
             (conv_big', s3) = alloc s2 (convolve cv (load s2 raw_hist') kernel_big');
             (conv_small', s4) = alloc s3 (convolve cv (load s3 raw_hist') kernel_small');
             (conv_delta', s5) = alloc s4 (arr_sub (load s4 conv_small') (load s4 conv_big'));
             (delta', s6) = alloc s5 (load s5 conv_delta');
             mean' = np_mean (load s6 delta');
             sigma' = np_std (load s6 delta');
             floor' = mean';
             (clipped', s7) = alloc s6 (load s6 delta');
             s8 = overwrite s7 clipped'
                    (mask_assign (load s7 clipped') (less_mask (load s7 delta') floor') floor')
         in Inr ((raw_hist', extent', delta', clipped', sigma'), s8))))))"

subsection \<open>Floats that are not finite, arrays and Series\<close>

text \<open>
  The docstring of \<^verbatim>\<open>dwarf_filter\<close> asks for arrays; the notebook passes two columns of a
  data frame (pandas Series). A float is a real number, an infinity or NaN. This section
  follows the first statements of the function on such values, up to the call of the
  histogram routine, which is where every input with a value that is not finite ends.
  On real numbers the arithmetic is exact, as everywhere in this theory; on the other
  values it is that of IEEE 754.
\<close>

datatype fl = is_Fin: Fin (the_Fin: real) | PInf | NInf | NaN

datatype container = Ndarray | Series

fun fneg :: "fl \<Rightarrow> fl" where
  "fneg (Fin a) = Fin (- a)"
| "fneg PInf = NInf"
| "fneg NInf = PInf"
| "fneg NaN = NaN"

fun fadd :: "fl \<Rightarrow> fl \<Rightarrow> fl" where
  "fadd NaN _ = NaN"
| "fadd _ NaN = NaN"
| "fadd (Fin a) (Fin b) = Fin (a + b)"
| "fadd PInf NInf = NaN"
| "fadd NInf PInf = NaN"
| "fadd PInf _ = PInf"
| "fadd _ PInf = PInf"
| "fadd NInf _ = NInf"
| "fadd _ NInf = NInf"

definition fsub :: "fl \<Rightarrow> fl \<Rightarrow> fl" where
  "fsub a b = fadd a (fneg b)"

fun fmul :: "fl \<Rightarrow> fl \<Rightarrow> fl" where
  "fmul NaN _ = NaN"
| "fmul _ NaN = NaN"
| "fmul (Fin a) (Fin b) = Fin (a * b)"
| "fmul (Fin a) PInf = (if a = 0 then NaN else if 0 < a then PInf else NInf)"
| "fmul (Fin a) NInf = (if a = 0 then NaN else if 0 < a then NInf else PInf)"
| "fmul PInf (Fin b) = (if b = 0 then NaN else if 0 < b then PInf else NInf)"
| "fmul NInf (Fin b) = (if b = 0 then NaN else if 0 < b then NInf else PInf)"
| "fmul PInf PInf = PInf"
| "fmul NInf NInf = PInf"
| "fmul PInf NInf = NInf"
| "fmul NInf PInf = NInf"

text \<open>Division by a positive constant (the function divides by 2.0 only), and the cosine.\<close>

fun fdiv_pos :: "fl \<Rightarrow> real \<Rightarrow> fl" where
  "fdiv_pos (Fin a) c = Fin (a / c)"
| "fdiv_pos v c = v"

fun fcos :: "fl \<Rightarrow> fl" where
  "fcos (Fin a) = Fin (cos a)"
| "fcos _ = NaN"

text \<open>
  \<^verbatim>\<open>np.rint(v).astype('int')\<close>: rounding leaves an infinity or NaN as it is, and the
  conversion of such a value to a 64-bit integer gives \<open>- 2 ^ 63\<close>, as for a number out
  of range (on x86-64; other processors give 0 for NaN: not a positive bin count either).
\<close>

fun rint_astype_int :: "fl \<Rightarrow> int" where
  "rint_astype_int (Fin v) = astype_int64 (rint v)"
| "rint_astype_int _ = - (2 ^ 63)"

text \<open>
  The order of the floats other than NaN, and the two reductions. \<^verbatim>\<open>min\<close> and \<open>max\<close> of an
  array raise ValueError on an empty array and are NaN as soon as one entry is NaN; those
  of a Series skip the NaN entries and are NaN when nothing is left, which includes the
  empty column.
\<close>

fun fless :: "fl \<Rightarrow> fl \<Rightarrow> bool" where
  "fless (Fin a) (Fin b) = (a < b)"
| "fless NInf (Fin b) = True"
| "fless NInf PInf = True"
| "fless (Fin a) PInf = True"
| "fless _ _ = False"

definition fmin2 :: "fl \<Rightarrow> fl \<Rightarrow> fl" where
  "fmin2 a b = (if fless a b then a else b)"

definition fmax2 :: "fl \<Rightarrow> fl \<Rightarrow> fl" where
  "fmax2 a b = (if fless a b then b else a)"

definition reduce :: "(fl \<Rightarrow> fl \<Rightarrow> fl) \<Rightarrow> container \<Rightarrow> fl list \<Rightarrow> error + fl" where
  "reduce f kind a =
     (case kind of
        Ndarray \<Rightarrow>
          if a = [] then Inl ValueError
          else Inr (if NaN \<in> set a then NaN else fold f (tl a) (hd a))
      | Series \<Rightarrow>
          let b = filter (\<lambda>v. v \<noteq> NaN) a
          in Inr (if b = [] then NaN else fold f (tl b) (hd b)))"

text \<open>
  What \<^verbatim>\<open>np.histogram2d\<close> checks, in its order: the two lengths, then for each axis the
  bin count and that the range of the data (its minimum and maximum; 0 and 1 for no data)
  is finite. Data that pass are finite, and the routine goes on as modelled above. Memory
  is not modelled: a positive bin count is accepted however large it is.
\<close>

definition histogram2d_checks :: "fl list \<Rightarrow> fl list \<Rightarrow> int \<times> int \<Rightarrow> error + unit" where
  "histogram2d_checks x y bins =
     (if length x \<noteq> length y then Inl ValueError
      else if fst bins < 1 then Inl ValueError
      else if \<not> list_all is_Fin x then Inl ValueError
      else if snd bins < 1 then Inl ValueError
      else if \<not> list_all is_Fin y then Inl ValueError
      else Inr ())"

text \<open>
  \<^verbatim>\<open>dwarf_filter\<close> on float inputs of either kind: the statements up to the histogram in
  float arithmetic; once the histogram routine has accepted the data, every value is
  finite and the run is the one modelled on the reals.
\<close>

definition dwarf_filter_float ::
  "container \<Rightarrow> conv \<Rightarrow> fl list \<Rightarrow> fl list \<Rightarrow> real \<Rightarrow> real
     \<Rightarrow> error + (array2 \<times> (real \<times> real \<times> real \<times> real) \<times> array2 \<times> array2 \<times> real)" where
  "dwarf_filter_float kind cv ra dec fwhm_small fwhm_big =
     bind (reduce fmin2 kind dec) (\<lambda>ymin. bind (reduce fmax2 kind dec) (\<lambda>ymax.
     bind (reduce fmax2 kind ra) (\<lambda>xmax. bind (reduce fmin2 kind ra) (\<lambda>xmin.
       let ymean' = fdiv_pos (fadd ymin ymax) 2;
           ydiff_arcmin' = fmul (fsub ymax ymin) (Fin 60);
           xdiff_angular' = fmul (fsub xmax xmin) (fcos (fmul ymean' (Fin (pi / 180))));
           xdiff_angular_arcmin' = fmul xdiff_angular' (Fin 60);
           nx' = rint_astype_int xdiff_angular_arcmin';
           ny' = rint_astype_int ydiff_arcmin'
       in bind (histogram2d_checks ra dec (nx', ny'))
            (\<lambda>_. dwarf_filter cv (map the_Fin ra) (map the_Fin dec) fwhm_small fwhm_big)))))"

subsection \<open>The peak-finding cell\<close>

text \<open>
  A row of the table the peak finder returns, and a row after the cell has added the
  columns \<^verbatim>\<open>ra\<close> and \<^verbatim>\<open>dec\<close> (\<open>tbl_ra\<close> and \<open>tbl_dec\<close> here).
\<close>

record peak =
  x_peak :: nat
  y_peak :: nat
  peak_value :: real

record candidate = peak +
  tbl_ra :: real
  tbl_dec :: real

text \<open>
  \<^verbatim>\<open>np.arange(start, stop, step)\<close> on floats has \<open>\<lceil>(stop - start) / step\<rceil>\<close> entries
  \<open>start + i * step\<close>; a zero step has no finite length and is refused.
  \<^verbatim>\<open>v[idx]\<close> with an array of indices raises IndexError when one of them is out of range.
\<close>

definition arange :: "real \<Rightarrow> real \<Rightarrow> real \<Rightarrow> error + array1" where
  "arange start stop step =
     (if step = 0 then Inl ValueError
      else Inr (map (\<lambda>i. start + real i * step) [0..<nat \<lceil>(stop - start) / step\<rceil>]))"

definition take_idx :: "array1 \<Rightarrow> nat list \<Rightarrow> error + array1" where
  "take_idx v idx =
     (if list_all (\<lambda>i. i < length v) idx then Inr (map (\<lambda>i. v ! i) idx) else Inl IndexError)"

text \<open>
  The cell. \<open>scs\<close> stands for \<^verbatim>\<open>stats.sigma_clipped_stats(clipped, sigma=3.0, maxiters=5)\<close>,
  which returns mean, median and standard deviation, and \<open>fp\<close> for the peak finder
  \<^verbatim>\<open>find_peaks(data, threshold, box_size=...)\<close>; both are library calls. The peak finder
  returns a table of peaks or \<open>None\<close>. The cell does not look at which: it builds the two
  coordinate vectors and then subscripts the result with \<^verbatim>\<open>tbl['x_peak']\<close>, which raises
  TypeError on \<open>None\<close>. \<open>field\<close> and \<open>bounds\<close> are the notebook's globals \<^verbatim>\<open>clipped\<close> and
  \<^verbatim>\<open>extent\<close>, the second pair of the cell's \<^verbatim>\<open>start, stop, step_size\<close> carries a 2.
\<close>

type_synonym finder = "array2 \<Rightarrow> real \<Rightarrow> real \<Rightarrow> peak list option"

definition find_peaks_cell ::
  "(array2 \<Rightarrow> real \<times> real \<times> real) \<Rightarrow> finder \<Rightarrow> array2
     \<Rightarrow> real \<times> real \<times> real \<times> real \<Rightarrow> real \<Rightarrow> error + candidate list" where
  "find_peaks_cell scs fp field bounds small_k =
     (case scs field of (mean', median, std) \<Rightarrow>
      let tbl = fp field (median + 10) (small_k * 2) in
      case bounds of (start, stop, start2, stop2) \<Rightarrow>
      let step_size = (stop - start) / real (snd (shape field)) in
      bind (arange start (stop + step_size) step_size) (\<lambda>xvec.
      let step_size2 = (stop2 - start2) / real (fst (shape field)) in
      bind (arange start2 (stop2 + step_size2) step_size2) (\<lambda>yvec.
      case tbl of
        None \<Rightarrow> Inl TypeError
      | Some rows \<Rightarrow>
          bind (take_idx xvec (map x_peak rows)) (\<lambda>ras.
          bind (take_idx yvec (map y_peak rows)) (\<lambda>decs.
            Inr (map (\<lambda>(p, r, d). \<lparr>x_peak = x_peak p, y_peak = y_peak p,
                                    peak_value = peak_value p, tbl_ra = r, tbl_dec = d\<rparr>)
                   (zip rows (zip ras decs))))))))"

text \<open>
  What the cell relies on from the peak finder is stated as a property of \<open>fp\<close>: the
  library, which is not part of the repository, documents that it returns \<open>None\<close> when
  no peak is found, and a cell is a peak only if its value exceeds the threshold.
\<close>

definition none_when_nothing_above :: "finder \<Rightarrow> bool" where
  "none_when_nothing_above fp =
     (\<forall>data threshold box_size.
        (\<forall>i<nrows data. \<forall>j<ncols data. data ! i ! j \<le> threshold) \<longrightarrow>
        fp data threshold box_size = None)"

subsection \<open>Notions of the specification\<close>

text \<open>
  The arithmetic mean of a sequence, and the two bin counts as functions of the input.
\<close>

definition arith_mean :: "array1 \<Rightarrow> real" where
  "arith_mean xs = sum_list xs / real (length xs)"

definition midrange :: "array1 \<Rightarrow> real" where
  "midrange xs = (Min (set xs) + Max (set xs)) / 2"

definition xbins :: "array1 \<Rightarrow> array1 \<Rightarrow> int" where
  "xbins ra dec =
     astype_int64
       (rint ((Max (set ra) - Min (set ra)) * cos (midrange dec * (pi / 180)) * 60))"

definition ybins :: "array1 \<Rightarrow> int" where
  "ybins dec = astype_int64 (rint ((Max (set dec) - Min (set dec)) * 60))"

text \<open>
  A value falls in bin \<open>i\<close> of a list of edges when it lies between edge \<open>i\<close> and edge
  \<open>i + 1\<close>, the right edge excluded, except for the last bin, which includes it.
  \<open>bin_count\<close> is the number of input points that fall in bin \<open>i\<close> of the first axis and
  bin \<open>j\<close> of the second.
\<close>

definition in_bin :: "array1 \<Rightarrow> nat \<Rightarrow> real \<Rightarrow> bool" where
  "in_bin edges i v =
     (edges ! i \<le> v \<and> (v < edges ! (i + 1) \<or> (i + 2 = length edges \<and> v = edges ! (i + 1))))"

definition bin_count :: "array1 \<Rightarrow> array1 \<Rightarrow> nat \<Rightarrow> nat \<Rightarrow> array1 \<Rightarrow> array1 \<Rightarrow> nat" where
  "bin_count xe ye i j ra dec =
     length (filter (\<lambda>(a, d). in_bin xe i a \<and> in_bin ye j d) (zip ra dec))"

text \<open>The floor of step 7: entries below \<open>m\<close> are raised to \<open>m\<close>, the others kept.\<close>

definition floor_at :: "real \<Rightarrow> array2 \<Rightarrow> array2" where
  "floor_at m a = map (map (\<lambda>v. if v < m then m else v)) a"

subsection \<open>A small run\<close>

text \<open>
  Three points in a field of two arcminutes by one, centred on the equator, and a
  stand-in for the convolution that divides each pixel by the kernel's width.
\<close>

definition example_ra :: array1 where
  "example_ra = [0, 1 / 30, 1 / 60]"

definition example_dec :: array1 where
  "example_dec = [- (1 / 120), 1 / 120, 1 / 120]"

definition example_cv :: conv where
  "example_cv a k i j = a ! i ! j / x_stddev k"

text \<open>
  A stand-in for the peak finder: every cell above the threshold is reported, row by
  row, and \<open>None\<close> when there is none.
\<close>

definition example_finder :: finder where
  "example_finder data threshold box_size =
     (let tbl = concat (map (\<lambda>i. concat (map (\<lambda>j.
                  if threshold < data ! i ! j
                  then [\<lparr>x_peak = j, y_peak = i, peak_value = data ! i ! j\<rparr>] else [])
                [0..<ncols data])) [0..<nrows data])
      in if tbl = [] then None else Some tbl)"

definition example_locals :: locals where
  "example_locals =
     \<lparr>ymean = 0, ydiff_arcmin = 1, xdiff = 1 / 30, xmean = 1 / 60,
      xdiff_angular = 1 / 30, xdiff_angular_arcmin = 2, nx = 2, ny = 1,
      Counts = [[1], [2]], xedges = [0, 1 / 60, 1 / 30], yedges = [- (1 / 120), 1 / 120],
      extent = (0, 1 / 30, - (1 / 120), 1 / 120), raw_hist = [[1, 2]],
      kernel_small = \<lparr>x_stddev = 40 / 47, y_stddev = 40 / 47, factor = 1\<rparr>,
      kernel_big = \<lparr>x_stddev = 400 / 47, y_stddev = 400 / 47, factor = 1\<rparr>,
      conv_big = [[47 / 400, 47 / 200]], conv_small = [[47 / 40, 47 / 20]],
      conv_delta = [[423 / 400, 423 / 200]], delta = [[423 / 400, 423 / 200]],
      mean = 1269 / 800, sigma = 423 / 800, sigmaRaw = 1 / 2, floorv = 1269 / 800,
      clipped = [[1269 / 800, 423 / 200]]\<rparr>"

section \<open>Facts about the model\<close>

subsection \<open>Failure and success of the steps\<close>

lemma bind_simps: "bind (Inl e) f = Inl e" "bind (Inr v) f = f v"
  by (simp_all add: bind_def)

lemma bind_eq_Inr: "bind m f = Inr r \<longleftrightarrow> (\<exists>v. m = Inr v \<and> f v = Inr r)"
  by (cases m) (simp_all add: bind_def)

lemma amin_eq_Inr: "amin a = Inr v \<longleftrightarrow> a \<noteq> [] \<and> v = Min (set a)"
  by (auto simp: amin_def)

lemma amax_eq_Inr: "amax a = Inr v \<longleftrightarrow> a \<noteq> [] \<and> v = Max (set a)"
  by (auto simp: amax_def)

lemma rint_examples:
  "astype_int64 (rint 2) = 2" "astype_int64 (rint 1) = 1" "astype_int64 (rint 0) = 0"
  by (simp_all add: rint_def astype_int64_def Let_def)

lemma example_histogram:
  "histogram2d example_ra example_dec (2, 1) =
     Inr ([[1], [2]], [0, 1 / 60, 1 / 30], [- (1 / 120), 1 / 120])"
  by (simp add: example_ra_def example_dec_def histogram2d_def bin_edges_def outer_edges_def
      linspace_def bin_index_def searchsorted_right_def Let_def upt_rec numeral_2_eq_2)

lemma example_std: "sqrt (178929 / 640000) = 423 / 800" "sqrt (1/4) = 1/2"
  by (rule real_sqrt_unique; simp add: power2_eq_square)+

lemma example_run:
  "dwarf_filter_locals example_cv example_ra example_dec 2 20 = Inr example_locals"
proof -
  have g: "amin example_dec = Inr (- (1 / 120))" "amax example_dec = Inr (1 / 120)"
          "amax example_ra = Inr (1 / 30)" "amin example_ra = Inr 0"
    by (simp_all add: amin_def amax_def example_ra_def example_dec_def)
  show ?thesis
    unfolding dwarf_filter_locals_def g bind_simps
    apply (simp add: rint_examples example_histogram bind_simps Let_def)
    apply (simp add: example_locals_def transpose_n_def convolve_def Gaussian2DKernel_def arr_sub_def
        mask_assign_def less_mask_def nrows_def ncols_def np_mean_def np_std_def example_cv_def)
    done
qed

lemma histogram2d_Inr:
  assumes "histogram2d x y (bx, by) = Inr (H, xe, ye)"
  shows "length x = length y" "1 \<le> bx" "1 \<le> by"
    "xe = bin_edges x (nat bx)" "ye = bin_edges y (nat by)"
    "H = map (\<lambda>i. map (\<lambda>j. real (length (filter (\<lambda>p. p = (i + 1, j + 1))
            (zip (map (bin_index xe) x) (map (bin_index ye) y))))) [0..<nat by]) [0..<nat bx]"
  using assms by (auto simp: histogram2d_def Let_def split: if_splits)

lemma locals_scalars:
  assumes "dwarf_filter_locals cv ra dec fs fb = Inr L"
  shows "ra \<noteq> []" "dec \<noteq> []"
    "ymean L = (Min (set dec) + Max (set dec)) / 2"
    "ydiff_arcmin L = (Max (set dec) - Min (set dec)) * 60"
    "xdiff L = Max (set ra) - Min (set ra)"
    "xmean L = (Min (set ra) + Max (set ra)) / 2"
    "xdiff_angular L = (Max (set ra) - Min (set ra)) * cos (ymean L * (pi / 180))"
    "xdiff_angular_arcmin L = xdiff_angular L * 60"
    "nx L = astype_int64 (rint (xdiff_angular_arcmin L))"
    "ny L = astype_int64 (rint (ydiff_arcmin L))"
    "histogram2d ra dec (nx L, ny L) = Inr (Counts L, xedges L, yedges L)"
  using assms unfolding dwarf_filter_locals_def
  by (auto simp: bind_eq_Inr amin_eq_Inr amax_eq_Inr Let_def split: prod.splits)

lemma locals_arrays:
  assumes "dwarf_filter_locals cv ra dec fs fb = Inr L"
  shows "extent L = (hd (xedges L), last (xedges L), hd (yedges L), last (yedges L))"
    "raw_hist L = transpose_n (nat (ny L)) (Counts L)"
    "kernel_small L = Gaussian2DKernel (fs / (235 / 100)) 1"
    "kernel_big L = Gaussian2DKernel (fb / (235 / 100)) 1"
    "conv_big L = convolve cv (raw_hist L) (kernel_big L)"
    "conv_small L = convolve cv (raw_hist L) (kernel_small L)"
    "conv_delta L = arr_sub (conv_small L) (conv_big L)"
    "delta L = conv_delta L"
    "mean L = np_mean (delta L)"
    "sigma L = np_std (delta L)"
    "sigmaRaw L = np_std (raw_hist L)"
    "floorv L = mean L"
    "clipped L = mask_assign (delta L) (less_mask (delta L) (floorv L)) (floorv L)"
  using assms unfolding dwarf_filter_locals_def
  by (auto simp: bind_eq_Inr amin_eq_Inr amax_eq_Inr Let_def split: prod.splits)

lemma dwarf_filter_returns:
  "dwarf_filter_locals cv ra dec fs fb = Inr L \<Longrightarrow>
   dwarf_filter cv ra dec fs fb = Inr (raw_hist L, extent L, delta L, clipped L, sigma L)"
  by (simp add: dwarf_filter_def bind_simps)

lemma dwarf_filter_Inl:
  "dwarf_filter_locals cv ra dec fs fb = Inl e \<Longrightarrow> dwarf_filter cv ra dec fs fb = Inl e"
  by (simp add: dwarf_filter_def bind_simps)

subsection \<open>Shapes\<close>

lemma ncols_map_const:
  "0 < n \<Longrightarrow> ncols (map (\<lambda>i. map (f i) [0..<m]) [0..<n]) = m"
  by (cases n) (simp_all add: ncols_def upt_conv_Cons del: upt_Suc)

lemma rect_map_const: "rect (map (\<lambda>i. map (f i) [0..<m]) [0..<n])"
  by (cases "n = 0") (simp_all add: rect_def list_all_iff ncols_map_const)

lemma shape_histogram:
  assumes "histogram2d x y (bx, by) = Inr (H, xe, ye)"
  shows "shape H = (nat bx, nat by)" "rect H"
proof -
  note h = histogram2d_Inr[OF assms]
  have "0 < nat bx" using h(2) by simp
  then show "shape H = (nat bx, nat by)"
    by (subst h(6), simp add: shape_def nrows_def ncols_map_const)
  show "rect H" by (subst h(6)) (rule rect_map_const)
qed

lemma nth_histogram:
  assumes "histogram2d x y (bx, by) = Inr (H, xe, ye)" "i < nat bx" "j < nat by"
  shows "H ! i ! j = real (length (filter (\<lambda>p. p = (i + 1, j + 1))
            (zip (map (bin_index xe) x) (map (bin_index ye) y))))"
  by (subst histogram2d_Inr(6)[OF assms(1)]) (simp add: assms(2,3))

lemma shape_transpose_n:
  "0 < n \<Longrightarrow> shape (transpose_n n a) = (n, length a)"
  by (cases n) (simp_all add: shape_def nrows_def ncols_def transpose_n_def upt_conv_Cons del: upt_Suc)

lemma rect_transpose_n: "rect (transpose_n n a)"
  by (cases n) (simp_all add: rect_def list_all_iff ncols_def transpose_n_def upt_conv_Cons del: upt_Suc)

lemma nth_transpose_n:
  "j < n \<Longrightarrow> i < length a \<Longrightarrow> transpose_n n a ! j ! i = a ! i ! j"
  by (simp add: transpose_n_def)

lemma shape_convolve: "shape (convolve cv a k) = shape a"
  by (cases a) (simp_all add: shape_def nrows_def ncols_def convolve_def upt_conv_Cons del: upt_Suc)

lemma rect_convolve: "rect (convolve cv a k)"
  unfolding convolve_def by (rule rect_map_const)

lemma nth_convolve:
  "i < nrows a \<Longrightarrow> j < ncols a \<Longrightarrow> convolve cv a k ! i ! j = cv a k i j"
  by (simp add: convolve_def)

lemma length_row: "rect a \<Longrightarrow> i < nrows a \<Longrightarrow> length (a ! i) = ncols a"
  by (simp add: rect_def list_all_length nrows_def)

lemma shape_arr_sub:
  assumes "shape a = shape b" "rect a" "rect b"
  shows "shape (arr_sub a b) = shape a" "rect (arr_sub a b)"
proof -
  have len: "length a = length b" and nc: "ncols a = ncols b"
    using assms(1) by (simp_all add: shape_def nrows_def)
  show s: "shape (arr_sub a b) = shape a"
    using len nc by (cases a; cases b) (simp_all add: shape_def nrows_def ncols_def arr_sub_def)
  have "length r = ncols a" if "r \<in> set (arr_sub a b)" for r
  proof -
    from that obtain i where i: "i < length a" "r = map2 (-) (a ! i) (b ! i)"
      using len by (auto simp: arr_sub_def in_set_conv_nth)
    then show ?thesis
      using length_row[OF assms(2), of i] length_row[OF assms(3), of i] len nc
      by (simp add: nrows_def)
  qed
  then show "rect (arr_sub a b)" using s by (simp add: rect_def list_all_iff shape_def)
qed

lemma nth_arr_sub:
  assumes "shape a = shape b" "rect a" "rect b" "i < nrows a" "j < ncols a"
  shows "arr_sub a b ! i ! j = a ! i ! j - b ! i ! j"
proof -
  have len: "length a = length b" and nc: "ncols a = ncols b"
    using assms(1) by (simp_all add: shape_def nrows_def)
  have "length (a ! i) = ncols a" "length (b ! i) = ncols a"
    using length_row[OF assms(2), of i] length_row[OF assms(3), of i] assms(4) len nc
    by (simp_all add: nrows_def)
  then show ?thesis using assms(4,5) len by (simp add: arr_sub_def nrows_def)
qed

lemma map2_map_same: "map2 f xs (map g xs) = map (\<lambda>x. f x (g x)) xs"
  by (induction xs) simp_all

lemma mask_assign_less_mask: "mask_assign a (less_mask a v) v = floor_at v a"
  by (simp add: mask_assign_def less_mask_def floor_at_def map2_map_same)

lemma shape_floor_at: "shape (floor_at m a) = shape a"
  by (cases a) (simp_all add: shape_def nrows_def ncols_def floor_at_def)

lemma rect_floor_at: "rect a \<Longrightarrow> rect (floor_at m a)"
  by (cases a) (simp_all add: rect_def list_all_iff ncols_def floor_at_def)

lemma nth_floor_at:
  "i < nrows a \<Longrightarrow> j < length (a ! i) \<Longrightarrow>
   floor_at m a ! i ! j = (if a ! i ! j < m then m else a ! i ! j)"
  by (simp add: floor_at_def nrows_def)

lemma locals_bins:
  assumes "dwarf_filter_locals cv ra dec fs fb = Inr L"
  shows "1 \<le> nx L" "1 \<le> ny L" "length ra = length dec"
  using histogram2d_Inr(1-3)[OF locals_scalars(11)[OF assms]] by simp_all

lemma locals_shapes:
  assumes "dwarf_filter_locals cv ra dec fs fb = Inr L"
  shows "shape (Counts L) = (nat (nx L), nat (ny L))" "rect (Counts L)"
    "shape (raw_hist L) = (nat (ny L), nat (nx L))" "rect (raw_hist L)"
    "shape (conv_small L) = (nat (ny L), nat (nx L))" "rect (conv_small L)"
    "shape (conv_big L) = (nat (ny L), nat (nx L))" "rect (conv_big L)"
    "shape (delta L) = (nat (ny L), nat (nx L))" "rect (delta L)"
    "shape (clipped L) = (nat (ny L), nat (nx L))" "rect (clipped L)"
proof -
  note a = locals_arrays[OF assms] and b = locals_bins[OF assms]
    and h = locals_scalars(11)[OF assms]
  show c: "shape (Counts L) = (nat (nx L), nat (ny L))" and "rect (Counts L)"
    using shape_histogram[OF h] by simp_all
  have "length (Counts L) = nat (nx L)" using c by (simp add: shape_def nrows_def)
  then show r: "shape (raw_hist L) = (nat (ny L), nat (nx L))"
    using b(2) by (simp add: a(2) shape_transpose_n)
  show "rect (raw_hist L)" by (simp add: a(2) rect_transpose_n)
  show s: "shape (conv_small L) = (nat (ny L), nat (nx L))" and rs: "rect (conv_small L)"
    by (simp_all add: a(6) shape_convolve rect_convolve r)
  show g: "shape (conv_big L) = (nat (ny L), nat (nx L))" and rg: "rect (conv_big L)"
    by (simp_all add: a(5) shape_convolve rect_convolve r)
  have sg: "shape (conv_small L) = shape (conv_big L)" using s g by simp
  show d: "shape (delta L) = (nat (ny L), nat (nx L))" and rd: "rect (delta L)"
    using shape_arr_sub[OF sg rs rg] s by (simp_all add: a(8) a(7))
  show "shape (clipped L) = (nat (ny L), nat (nx L))" and "rect (clipped L)"
    using d rd by (simp_all add: a(13) mask_assign_less_mask shape_floor_at rect_floor_at)
qed

subsection \<open>Bin edges\<close>

lemma length_linspace: "length (linspace lo hi num) = num"
  by (simp add: linspace_def)

lemma nth_linspace:
  assumes "0 < n" "k \<le> n"
  shows "linspace lo hi (n + 1) ! k = lo + real k * ((hi - lo) / real n)"
proof (cases "k = n")
  case True
  then show ?thesis using assms(1) by (simp add: linspace_def)
next
  case False
  then have "k < n" using assms(2) by simp
  then show ?thesis by (simp add: linspace_def nth_append)
qed

lemma linspace_nonempty: "linspace lo hi (n + 1) \<noteq> []"
  using length_linspace[of lo hi "n + 1"] by (cases "linspace lo hi (n + 1)") simp_all

lemma hd_linspace: assumes "0 < n" shows "hd (linspace lo hi (n + 1)) = lo"
proof -
  have "hd (linspace lo hi (n + 1)) = linspace lo hi (n + 1) ! 0"
    by (rule hd_conv_nth[OF linspace_nonempty])
  also have "\<dots> = lo" using nth_linspace[OF assms, of 0 lo hi] by simp
  finally show ?thesis .
qed

lemma last_linspace: assumes "0 < n" shows "last (linspace lo hi (n + 1)) = hi"
proof -
  have "last (linspace lo hi (n + 1)) = linspace lo hi (n + 1) ! (length (linspace lo hi (n + 1)) - 1)"
    by (rule last_conv_nth[OF linspace_nonempty])
  also have "\<dots> = linspace lo hi (n + 1) ! n" by (simp only: length_linspace add_diff_cancel_right')
  also have "\<dots> = hi" using nth_linspace[OF assms, of n lo hi] assms by simp
  finally show ?thesis .
qed

lemma linspace_strict:
  assumes "0 < n" "lo < hi" "i < j" "j \<le> n"
  shows "linspace lo hi (n + 1) ! i < linspace lo hi (n + 1) ! j"
proof -
  define w where "w = (hi - lo) / real n"
  have "0 < w" using assms(1,2) by (simp add: w_def)
  moreover have "real i < real j" using assms(3) by simp
  ultimately have "real i * w < real j * w" by (rule mult_strict_right_mono[rotated])
  moreover have "linspace lo hi (n + 1) ! i = lo + real i * w"
    using assms by (simp only: w_def nth_linspace[OF assms(1)] order_trans[OF less_imp_le])
  moreover have "linspace lo hi (n + 1) ! j = lo + real j * w"
    using assms by (simp only: w_def nth_linspace[OF assms(1)])
  ultimately show ?thesis by simp
qed

lemma astype_int64_pos: "1 \<le> astype_int64 n \<Longrightarrow> 1 \<le> n"
  by (simp add: astype_int64_def split: if_splits)

lemma rint_pos: assumes "1 \<le> rint v" shows "0 < v"
proof (rule ccontr)
  assume "\<not> 0 < v"
  then have v: "v \<le> 0" by simp
  have f: "\<lfloor>v\<rfloor> \<le> 0" using floor_mono[OF v] by simp
  have "rint v \<le> 0"
  proof (cases "\<lfloor>v\<rfloor> = 0")
    case True
    then have "0 \<le> v" using of_int_floor_le[of v] by simp
    with v have "v = 0" by simp
    then show ?thesis by (simp add: rint_def)
  next
    case False
    then have "\<lfloor>v\<rfloor> + 1 \<le> 0" using f by linarith
    moreover have "rint v \<le> \<lfloor>v\<rfloor> + 1" by (simp add: rint_def Let_def)
    ultimately show ?thesis by linarith
  qed
  then show False using assms by simp
qed

lemma Min_less_Max:
  fixes a :: array1 and c :: real
  assumes "a \<noteq> []" "0 < (Max (set a) - Min (set a)) * c"
  shows "Min (set a) < Max (set a)"
proof -
  have le: "Min (set a) \<le> Max (set a)" using assms(1) by (simp add: Min_le_iff)
  have "Min (set a) \<noteq> Max (set a)"
  proof
    assume "Min (set a) = Max (set a)"
    then have "(Max (set a) - Min (set a)) * c = 0" by simp
    with assms(2) show False by simp
  qed
  with le show ?thesis by simp
qed

lemma bin_edges_proper:
  "a \<noteq> [] \<Longrightarrow> Min (set a) < Max (set a) \<Longrightarrow>
   bin_edges a n = linspace (Min (set a)) (Max (set a)) (n + 1)"
  by (simp add: bin_edges_def outer_edges_def Let_def)

lemma locals_edges:
  assumes "dwarf_filter_locals cv ra dec fs fb = Inr L"
  shows "Min (set ra) < Max (set ra)" "Min (set dec) < Max (set dec)"
    "xedges L = linspace (Min (set ra)) (Max (set ra)) (nat (nx L) + 1)"
    "yedges L = linspace (Min (set dec)) (Max (set dec)) (nat (ny L) + 1)"
    "extent L = (Min (set ra), Max (set ra), Min (set dec), Max (set dec))"
proof -
  note g = locals_scalars[OF assms] and b = locals_bins[OF assms]
    and h = histogram2d_Inr[OF locals_scalars(11)[OF assms]]
  have "0 < xdiff_angular_arcmin L" using b(1) g(9) astype_int64_pos rint_pos by simp
  then have "0 < (Max (set ra) - Min (set ra)) * (cos (ymean L * (pi / 180)) * 60)"
    by (simp add: g(8) g(7) mult.assoc)
  then show x: "Min (set ra) < Max (set ra)" by (rule Min_less_Max[OF g(1)])
  have "0 < ydiff_arcmin L" using b(2) g(10) astype_int64_pos rint_pos by simp
  then have "0 < (Max (set dec) - Min (set dec)) * 60" by (simp add: g(4))
  then show y: "Min (set dec) < Max (set dec)" by (rule Min_less_Max[OF g(2)])
  show xe: "xedges L = linspace (Min (set ra)) (Max (set ra)) (nat (nx L) + 1)"
    by (simp only: h(4) bin_edges_proper[OF g(1) x])
  show ye: "yedges L = linspace (Min (set dec)) (Max (set dec)) (nat (ny L) + 1)"
    by (simp only: h(5) bin_edges_proper[OF g(2) y])
  have n: "0 < nat (nx L)" "0 < nat (ny L)" using b by simp_all
  show "extent L = (Min (set ra), Max (set ra), Min (set dec), Max (set dec))"
    by (simp only: locals_arrays(1)[OF assms] xe ye hd_linspace[OF n(1)] last_linspace[OF n(1)]
        hd_linspace[OF n(2)] last_linspace[OF n(2)])
qed

subsection \<open>The coordinate vectors of the cell\<close>

lemma arange_linspace:
  assumes "0 < n" "lo < hi"
  shows "arange lo (hi + (hi - lo) / real n) ((hi - lo) / real n) = Inr (linspace lo hi (n + 1))"
proof -
  define w where "w = (hi - lo) / real n"
  have w: "0 < w" using assms by (simp add: w_def)
  have "hi - lo = real n * w" using assms(1) by (simp add: w_def)
  then have "hi + w - lo = (real n + 1) * w" by (simp add: algebra_simps)
  then have "(hi + w - lo) / w = real n + 1" using w by simp
  then have "\<lceil>(hi + w - lo) / w\<rceil> = int n + 1" by (simp add: ceiling_eq_iff)
  then have len: "nat \<lceil>(hi + w - lo) / w\<rceil> = n + 1" by simp
  have "map (\<lambda>i. lo + real i * w) [0..<n + 1] = linspace lo hi (n + 1)"
  proof (rule nth_equalityI)
    show "length (map (\<lambda>i. lo + real i * w) [0..<n + 1]) = length (linspace lo hi (n + 1))"
      by (simp add: length_linspace)
    fix k assume "k < length (map (\<lambda>i. lo + real i * w) [0..<n + 1])"
    then have k: "k \<le> n" by simp
    then have "map (\<lambda>i. lo + real i * w) [0..<n + 1] ! k = lo + real k * w"
      by (simp add: nth_append del: upt_Suc)
    then show "map (\<lambda>i. lo + real i * w) [0..<n + 1] ! k = linspace lo hi (n + 1) ! k"
      by (simp only: nth_linspace[OF assms(1) k] w_def)
  qed
  then have "arange lo (hi + w) w = Inr (linspace lo hi (n + 1))"
    using w len by (simp add: arange_def del: upt_Suc)
  then show ?thesis by (simp only: w_def)
qed

subsection \<open>The run of the cell\<close>

lemma take_idx_ok:
  "\<forall>i\<in>set idx. i < length v \<Longrightarrow> take_idx v idx = Inr (map (\<lambda>i. v ! i) idx)"
  by (simp add: take_idx_def list_all_iff)

lemma zip_zip_map: "zip xs (zip (map f xs) (map g xs)) = map (\<lambda>x. (x, f x, g x)) xs"
  by (induction xs) simp_all

lemma cell_run:
  assumes "lo < hi" "lo2 < hi2" "0 < nrows field" "0 < ncols field"
    and "scs field = (m, median, sd)"
    and "fp field (median + 10) (small_k * 2) = Some tbl"
    and "\<forall>p\<in>set tbl. x_peak p \<le> ncols field \<and> y_peak p \<le> nrows field"
  shows "find_peaks_cell scs fp field (lo, hi, lo2, hi2) small_k =
     Inr (map (\<lambda>p. \<lparr>x_peak = x_peak p, y_peak = y_peak p, peak_value = peak_value p,
                     tbl_ra = lo + real (x_peak p) * ((hi - lo) / real (ncols field)),
                     tbl_dec = lo2 + real (y_peak p) * ((hi2 - lo2) / real (nrows field))\<rparr>)
            tbl)"
proof -
  let ?xv = "linspace lo hi (ncols field + 1)"
  let ?yv = "linspace lo2 hi2 (nrows field + 1)"
  have x: "take_idx ?xv (map x_peak tbl) = Inr (map (\<lambda>i. ?xv ! i) (map x_peak tbl))"
    using assms(7) by (intro take_idx_ok) (auto simp: length_linspace)
  have y: "take_idx ?yv (map y_peak tbl) = Inr (map (\<lambda>i. ?yv ! i) (map y_peak tbl))"
    using assms(7) by (intro take_idx_ok) (auto simp: length_linspace)
  have "find_peaks_cell scs fp field (lo, hi, lo2, hi2) small_k =
      Inr (map (\<lambda>(p, r, d). \<lparr>x_peak = x_peak p, y_peak = y_peak p,
                                peak_value = peak_value p, tbl_ra = r, tbl_dec = d\<rparr>)
             (zip tbl (zip (map (\<lambda>i. ?xv ! i) (map x_peak tbl))
                            (map (\<lambda>i. ?yv ! i) (map y_peak tbl)))))"
    unfolding find_peaks_cell_def
    by (simp only: assms(5) assms(6) prod.case option.case Let_def shape_def fst_conv snd_conv
        arange_linspace[OF assms(4) assms(1)] arange_linspace[OF assms(3) assms(2)]
        bind_simps x y)
  also have "\<dots> = Inr (map (\<lambda>p. \<lparr>x_peak = x_peak p, y_peak = y_peak p,
                     peak_value = peak_value p,
                     tbl_ra = ?xv ! x_peak p, tbl_dec = ?yv ! y_peak p\<rparr>) tbl)"
    by (simp add: map_map comp_def zip_zip_map del: One_nat_def)
  also have "\<dots> = Inr (map (\<lambda>p. \<lparr>x_peak = x_peak p, y_peak = y_peak p, peak_value = peak_value p,
                     tbl_ra = lo + real (x_peak p) * ((hi - lo) / real (ncols field)),
                     tbl_dec = lo2 + real (y_peak p) * ((hi2 - lo2) / real (nrows field))\<rparr>) tbl)"
    using assms(7)
    by (auto simp only: sum.inject map_eq_conv nth_linspace[OF assms(4)] nth_linspace[OF assms(3)])
  finally show ?thesis .
qed

lemma cell_on_None:
  assumes "lo < hi" "lo2 < hi2" "0 < nrows field" "0 < ncols field"
    and "scs field = (m, median, sd)"
    and "fp field (median + 10) (small_k * 2) = None"
  shows "find_peaks_cell scs fp field (lo, hi, lo2, hi2) small_k = Inl TypeError"
  unfolding find_peaks_cell_def
  by (simp only: assms(5) assms(6) prod.case option.case Let_def shape_def fst_conv snd_conv
      arange_linspace[OF assms(4) assms(1)] arange_linspace[OF assms(3) assms(2)] bind_simps)

lemma linear_in_range:
  fixes lo hi :: real
  assumes "lo < hi" "0 < n" "i < n"
  shows "lo \<le> lo + real i * ((hi - lo) / real n)" "lo + real i * ((hi - lo) / real n) < hi"
proof -
  define w where "w = (hi - lo) / real n"
  have w: "0 < w" using assms by (simp add: w_def)
  have nw: "real n * w = hi - lo" using assms(2) by (simp add: w_def)
  have "0 \<le> real i * w" using w by simp
  then show "lo \<le> lo + real i * ((hi - lo) / real n)" by (simp add: w_def)
  have "real i * w < real n * w" using w assms(3) by simp
  then have "lo + real i * w < hi" using nw by simp
  then show "lo + real i * ((hi - lo) / real n) < hi" by (simp only: w_def)
qed

subsection \<open>Which inputs fail\<close>

lemma locals_empty_dec: "dwarf_filter_locals cv ra [] fs fb = Inl ValueError"
  by (simp add: dwarf_filter_locals_def amin_def bind_simps)

lemma locals_empty_ra:
  "dec \<noteq> [] \<Longrightarrow> dwarf_filter_locals cv [] dec fs fb = Inl ValueError"
  by (simp add: dwarf_filter_locals_def amin_def amax_def bind_simps)

lemma locals_histogram_fails:
  assumes "ra \<noteq> []" "dec \<noteq> []"
    and "histogram2d ra dec (xbins ra dec, ybins dec) = Inl e"
  shows "dwarf_filter_locals cv ra dec fs fb = Inl e"
  using assms unfolding dwarf_filter_locals_def xbins_def ybins_def midrange_def
  by (simp add: amin_def amax_def bind_simps Let_def)

lemma histogram2d_fails:
  "length x \<noteq> length y \<or> bx < 1 \<or> by < 1 \<Longrightarrow>
   histogram2d x y (bx, by) = Inl ValueError"
  by (auto simp: histogram2d_def)

lemma constant_Min_Max:
  fixes a :: array1
  assumes "a \<noteq> []" "\<forall>v\<in>set a. v = c"
  shows "Min (set a) = c" "Max (set a) = c"
proof -
  have "set a = {c}" using assms by (cases a) auto
  then show "Min (set a) = c" "Max (set a) = c" by simp_all
qed

lemma rint_0: "astype_int64 (rint 0) = 0"
  by (simp add: rint_def astype_int64_def)

lemma constant_bins:
  assumes "ra \<noteq> []" "dec \<noteq> []" "\<forall>v\<in>set ra. v = r0" "\<forall>v\<in>set dec. v = d0"
  shows "xbins ra dec = 0" "ybins dec = 0"
  by (simp_all add: xbins_def ybins_def constant_Min_Max[OF assms(1,3)]
      constant_Min_Max[OF assms(2,4)] rint_0)

subsection \<open>The run over the store\<close>

lemma store_run:
  assumes "dwarf_filter_locals cv ra dec fs fb = Inr L"
  shows "dwarf_filter_store cv ra dec fs fb s =
     Inr ((length s + 1, extent L, length s + 5, length s + 6, sigma L),
          s @ [Counts L, raw_hist L, conv_big L, conv_small L, conv_delta L, delta L, clipped L])"
proof -
  note g = locals_scalars[OF assms] and a = locals_arrays[OF assms]
  have m: "amin dec = Inr (Min (set dec))" "amax dec = Inr (Max (set dec))"
    "amax ra = Inr (Max (set ra))" "amin ra = Inr (Min (set ra))"
    using g(1,2) by (simp_all add: amin_def amax_def)
  have nx: "astype_int64 (rint ((Max (set ra) - Min (set ra)) *
              cos ((Min (set dec) + Max (set dec)) / 2 * (pi / 180)) * 60)) = nx L"
    by (simp only: g(9) g(8) g(7) g(3))
  have ny: "astype_int64 (rint ((Max (set dec) - Min (set dec)) * 60)) = ny L"
    by (simp only: g(10) g(4))
  have "dwarf_filter_store cv ra dec fs fb s =
      (let (Counts', s1) = alloc s (Counts L);
             extent' = (hd (xedges L), last (xedges L), hd (yedges L), last (yedges L));
             (raw_hist', s2) = alloc s1 (transpose_n (nat (ny L)) (load s1 Counts'));
             kernel_small' = Gaussian2DKernel (fs / (235 / 100)) 1;
             kernel_big' = Gaussian2DKernel (fb / (235 / 100)) 1;
             (conv_big', s3) = alloc s2 (convolve cv (load s2 raw_hist') kernel_big');
             (conv_small', s4) = alloc s3 (convolve cv (load s3 raw_hist') kernel_small');
             (conv_delta', s5) = alloc s4 (arr_sub (load s4 conv_small') (load s4 conv_big'));
             (delta', s6) = alloc s5 (load s5 conv_delta');
             mean' = np_mean (load s6 delta');
             sigma' = np_std (load s6 delta');
             floor' = mean';
             (clipped', s7) = alloc s6 (load s6 delta');
             s8 = overwrite s7 clipped'
                    (mask_assign (load s7 clipped') (less_mask (load s7 delta') floor') floor')
         in Inr ((raw_hist', extent', delta', clipped', sigma'), s8))"
    unfolding dwarf_filter_store_def
    by (simp only: m bind_simps Let_def nx ny g(11) prod.case)
  also have "\<dots> = Inr ((length s + 1, extent L, length s + 5, length s + 6, sigma L),
          s @ [Counts L, raw_hist L, conv_big L, conv_small L, conv_delta L, delta L, clipped L])"
    by (simp add: alloc_def load_def overwrite_def Let_def nth_append a list_update_append)
  finally show ?thesis .
qed

subsection \<open>Bins\<close>

lemma filter_le_sorted:
  fixes E :: array1
  shows "sorted E \<Longrightarrow> filter (\<lambda>e. e \<le> v) E = takeWhile (\<lambda>e. e \<le> v) E"
proof (induction E)
  case Nil
  then show ?case by simp
next
  case (Cons x xs)
  show ?case
  proof (cases "x \<le> v")
    case True
    then show ?thesis using Cons by simp
  next
    case False
    then have "\<forall>y\<in>set xs. \<not> y \<le> v" using Cons.prems by fastforce
    then have "filter (\<lambda>e. e \<le> v) xs = []" by (simp add: filter_empty_conv)
    then show ?thesis using False by simp
  qed
qed

lemma searchsorted_right_iff:
  fixes E :: array1
  assumes "sorted E"
  shows "searchsorted_right E v = k \<longleftrightarrow>
         k \<le> length E \<and> (\<forall>m<k. E ! m \<le> v) \<and> (k < length E \<longrightarrow> v < E ! k)"
proof -
  define K where "K = length (takeWhile (\<lambda>e. e \<le> v) E)"
  have s: "searchsorted_right E v = K"
    by (simp add: searchsorted_right_def K_def filter_le_sorted[OF assms])
  have K1: "K \<le> length E" by (simp add: K_def length_takeWhile_le)
  have K2: "E ! m \<le> v" if "m < K" for m
  proof -
    have "takeWhile (\<lambda>e. e \<le> v) E ! m \<in> set (takeWhile (\<lambda>e. e \<le> v) E)"
      using that by (simp add: K_def)
    then have "takeWhile (\<lambda>e. e \<le> v) E ! m \<le> v" by (rule set_takeWhileD[THEN conjunct2])
    then show ?thesis using that by (simp add: K_def takeWhile_nth)
  qed
  have K3: "v < E ! K" if "K < length E"
    using nth_length_takeWhile[of "\<lambda>e. e \<le> v" E] that by (simp add: K_def not_le)
  show ?thesis
  proof
    assume "searchsorted_right E v = k"
    then have "k = K" using s by simp
    then show "k \<le> length E \<and> (\<forall>m<k. E ! m \<le> v) \<and> (k < length E \<longrightarrow> v < E ! k)"
      using K1 K2 K3 by simp
  next
    assume k: "k \<le> length E \<and> (\<forall>m<k. E ! m \<le> v) \<and> (k < length E \<longrightarrow> v < E ! k)"
    have "\<not> k < K"
    proof
      assume "k < K"
      then have "E ! k \<le> v" "v < E ! k" using K2 K1 k by auto
      then show False by simp
    qed
    moreover have "\<not> K < k"
    proof
      assume "K < k"
      then have "E ! K \<le> v" "v < E ! K" using K3 k by auto
      then show False by simp
    qed
    ultimately show "searchsorted_right E v = k" using s by simp
  qed
qed

lemma sorted_linspace:
  assumes "0 < n" "lo < hi" shows "sorted (linspace lo hi (n + 1))"
  unfolding sorted_iff_nth_mono_less
  using linspace_strict[OF assms] by (auto simp: length_linspace intro: less_imp_le)

lemma bin_index_linspace:
  assumes n: "0 < n" and lh: "lo < hi" and v: "lo \<le> v" "v \<le> hi"
  shows "1 \<le> bin_index (linspace lo hi (n + 1)) v"
    and "bin_index (linspace lo hi (n + 1)) v \<le> n"
    and "i < n \<Longrightarrow> bin_index (linspace lo hi (n + 1)) v = i + 1 \<longleftrightarrow>
           in_bin (linspace lo hi (n + 1)) i v"
proof -
  define E where "E = linspace lo hi (n + 1)"
  define K where "K = searchsorted_right E v"
  have len: "length E = n + 1" by (simp add: E_def length_linspace)
  have E0: "E ! 0 = lo" using nth_linspace[OF n, of 0 lo hi] by (simp add: E_def)
  have En: "E ! n = hi" using nth_linspace[OF n, of n lo hi] n by (simp add: E_def)
  have last: "last E = hi" by (simp only: E_def last_linspace[OF n])
  have strict: "E ! a < E ! b" if "a < b" "b \<le> n" for a b
    using linspace_strict[OF n lh that] by (simp only: E_def)
  have mono: "E ! a \<le> E ! b" if "a \<le> b" "b \<le> n" for a b
    using strict[of a b] that by (cases "a = b") (auto intro: less_imp_le)
  have srt: "sorted E" by (simp only: E_def sorted_linspace[OF n lh])
  have K: "K \<le> n + 1" "\<And>m. m < K \<Longrightarrow> E ! m \<le> v" "K < n + 1 \<Longrightarrow> v < E ! K"
    using searchsorted_right_iff[OF srt, of v K] by (simp_all add: K_def len)
  have K1: "1 \<le> K"
  proof (rule ccontr)
    assume "\<not> 1 \<le> K"
    then have "K = 0" by simp
    then have "v < E ! 0" using K(3) by simp
    then show False using v(1) E0 by simp
  qed
  have top: "K = n + 1" if "v = hi"
  proof (rule ccontr)
    assume "K \<noteq> n + 1"
    then have "K < n + 1" using K(1) by simp
    then have "v < E ! K" "E ! K \<le> E ! n" using K(3) mono[of K n] by simp_all
    then show False using that En by simp
  qed
  have below: "K \<le> n" if "v \<noteq> hi"
  proof (rule ccontr)
    assume "\<not> K \<le> n"
    then have "n < K" by simp
    then have "E ! n \<le> v" by (rule K(2))
    then show False using that v(2) En by simp
  qed
  have b: "bin_index E v = (if v = hi then K - 1 else K)"
    by (simp add: bin_index_def Let_def K_def last)
  show "1 \<le> bin_index (linspace lo hi (n + 1)) v"
    using b K1 top n by (fold E_def) (auto split: if_splits)
  show "bin_index (linspace lo hi (n + 1)) v \<le> n"
    using b top below by (fold E_def) (auto split: if_splits)
  show "bin_index (linspace lo hi (n + 1)) v = i + 1 \<longleftrightarrow> in_bin (linspace lo hi (n + 1)) i v"
    if i: "i < n"
  proof (cases "v = hi")
    case True
    have "E ! i \<le> v" using mono[of i n] i En True by simp
    moreover have "\<not> v < E ! (i + 1)" using mono[of "i + 1" n] i En True by simp
    moreover have "E ! (i + 1) = hi" if "i + 1 = n" using that En by simp
    ultimately have "in_bin E i v \<longleftrightarrow> i + 1 = n"
      using True by (auto simp: in_bin_def len)
    moreover have "bin_index E v = n" using b top True by simp
    ultimately show ?thesis by (fold E_def) auto
  next
    case False
    have bk: "bin_index E v = K" using b False by simp
    have "K = i + 1 \<longleftrightarrow> in_bin E i v"
    proof
      assume "K = i + 1"
      then have "E ! i \<le> v" "v < E ! (i + 1)" using K(2)[of i] K(3) i by simp_all
      then show "in_bin E i v" by (simp add: in_bin_def)
    next
      assume ib: "in_bin E i v"
      have "v \<noteq> E ! (i + 1)" if "i + 2 = length E"
        using that len En False by simp
      then have lt: "E ! i \<le> v" "v < E ! (i + 1)" using ib by (auto simp: in_bin_def)
      have "E ! m \<le> v" if "m < i + 1" for m
        using mono[of m i] that i lt(1) by simp
      then have "searchsorted_right E v = i + 1"
        using lt(2) i by (subst searchsorted_right_iff[OF srt]) (simp add: len)
      then show "K = i + 1" by (simp add: K_def)
    qed
    then show ?thesis using bk by (fold E_def) simp
  qed
qed

lemma count_pairs_map:
  "length (filter (\<lambda>p. p = (a, b)) (zip (map f xs) (map g ys))) =
   length (filter (\<lambda>(x, y). f x = a \<and> g y = b) (zip xs ys))"
proof -
  have "zip (map f xs) (map g ys) = map (\<lambda>(x, y). (f x, g y)) (zip xs ys)"
    by (simp add: zip_map_map)
  then show ?thesis
    by (simp add: filter_map comp_def case_prod_unfold)
qed

lemma in_range_Min_Max:
  fixes a :: array1
  shows "v \<in> set a \<Longrightarrow> Min (set a) \<le> v \<and> v \<le> Max (set a)"
  by simp

lemma locals_bin_count:
  assumes "dwarf_filter_locals cv ra dec fs fb = Inr L" "i < nat (nx L)" "j < nat (ny L)"
  shows "Counts L ! i ! j = real (bin_count (xedges L) (yedges L) i j ra dec)"
proof -
  note e = locals_edges[OF assms(1)] and b = locals_bins[OF assms(1)]
    and h = locals_scalars(11)[OF assms(1)]
  have n: "0 < nat (nx L)" "0 < nat (ny L)" using b by simp_all
  have "Counts L ! i ! j = real (length (filter (\<lambda>p. p = (i + 1, j + 1))
            (zip (map (bin_index (xedges L)) ra) (map (bin_index (yedges L)) dec))))"
    by (rule nth_histogram[OF h assms(2,3)])
  also have "\<dots> = real (length (filter
      (\<lambda>(x, y). bin_index (xedges L) x = i + 1 \<and> bin_index (yedges L) y = j + 1) (zip ra dec)))"
    by (simp only: count_pairs_map)
  also have "filter (\<lambda>(x, y). bin_index (xedges L) x = i + 1 \<and> bin_index (yedges L) y = j + 1)
        (zip ra dec) =
      filter (\<lambda>(x, y). in_bin (xedges L) i x \<and> in_bin (yedges L) j y) (zip ra dec)"
  proof (rule filter_cong[OF refl])
    fix p assume "p \<in> set (zip ra dec)"
    moreover obtain x y where p1: "p = (x, y)" by (cases p)
    ultimately have "x \<in> set ra" "y \<in> set dec" by (auto elim: in_set_zipE)
    note p = p1 this
    have "bin_index (xedges L) x = i + 1 \<longleftrightarrow> in_bin (xedges L) i x"
      using bin_index_linspace(3)[OF n(1) e(1) _ _ assms(2), of x] in_range_Min_Max[OF p(2)]
      by (simp only: e(3))
    moreover have "bin_index (yedges L) y = j + 1 \<longleftrightarrow> in_bin (yedges L) j y"
      using bin_index_linspace(3)[OF n(2) e(2) _ _ assms(3), of y] in_range_Min_Max[OF p(3)]
      by (simp only: e(4))
    ultimately show "(case p of (x, y) \<Rightarrow>
          bin_index (xedges L) x = i + 1 \<and> bin_index (yedges L) y = j + 1) =
        (case p of (x, y) \<Rightarrow> in_bin (xedges L) i x \<and> in_bin (yedges L) j y)"
      by (simp add: p(1))
  qed
  finally show ?thesis by (simp only: bin_count_def)
qed

lemma sum_list_upt: "sum_list (map f [0..<n]) = sum f {0..<n}"
  for f :: "nat \<Rightarrow> real"
  by (simp add: interv_sum_list_conv_sum_set_nat)

lemma sum_list_concat: "sum_list (concat xss) = sum_list (map sum_list xss)"
  for xss :: "real list list"
  by (induction xss) simp_all

lemma map_by_index: "map f xs = map (\<lambda>i. f (xs ! i)) [0..<length xs]"
  by (rule nth_equalityI) simp_all

lemma count_in_grid:
  fixes ps :: "(nat \<times> nat) list"
  assumes "\<forall>p\<in>set ps. 1 \<le> fst p \<and> fst p \<le> bx \<and> 1 \<le> snd p \<and> snd p \<le> by"
  shows "(\<Sum>j\<in>{0..<by}. \<Sum>i\<in>{0..<bx}.
            real (length (filter (\<lambda>p. p = (i + 1, j + 1)) ps))) = real (length ps)"
  using assms
proof (induction ps)
  case Nil
  then show ?case by simp
next
  case (Cons p ps)
  obtain a b where p: "p = (a, b)" by (cases p)
  have ab: "1 \<le> a" "a \<le> bx" "1 \<le> b" "b \<le> by" using Cons.prems p by simp_all
  have ab1: "a - 1 < bx" "b - 1 < by" using ab by arith+
  have one: "(\<Sum>j\<in>{0..<by}. \<Sum>i\<in>{0..<bx}. (if p = (i + 1, j + 1) then 1 else 0 :: real)) = 1"
  proof -
    have "(\<Sum>j\<in>{0..<by}. \<Sum>i\<in>{0..<bx}. (if p = (i + 1, j + 1) then 1 else 0 :: real)) =
          (\<Sum>j\<in>{0..<by}. \<Sum>i\<in>{0..<bx}. (if j = b - 1 then (if i = a - 1 then 1 else 0) else 0))"
      using ab by (intro sum.cong refl) (auto simp: p)
    also have "\<dots> = (\<Sum>j\<in>{0..<by}. if j = b - 1 then 1 else 0)"
      using ab1 by (intro sum.cong refl) simp
    also have "\<dots> = 1" using ab1 by simp
    finally show ?thesis .
  qed
  have "(\<Sum>j\<in>{0..<by}. \<Sum>i\<in>{0..<bx}.
            real (length (filter (\<lambda>q. q = (i + 1, j + 1)) (p # ps)))) =
        (\<Sum>j\<in>{0..<by}. \<Sum>i\<in>{0..<bx}. ((if p = (i + 1, j + 1) then 1 else 0) +
            real (length (filter (\<lambda>q. q = (i + 1, j + 1)) ps))))"
    by (intro sum.cong refl) simp
  also have "\<dots> = 1 + real (length ps)"
    using Cons.IH Cons.prems one by (simp add: sum.distrib)
  finally show ?case by simp
qed

lemma locals_total:
  assumes "dwarf_filter_locals cv ra dec fs fb = Inr L"
  shows "sum_list (concat (raw_hist L)) = real (length ra)"
proof -
  note e = locals_edges[OF assms] and b = locals_bins[OF assms]
    and h = locals_scalars(11)[OF assms] and a = locals_arrays[OF assms]
    and s = locals_shapes[OF assms]
  have n: "0 < nat (nx L)" "0 < nat (ny L)" using b by simp_all
  define ps where "ps = zip (map (bin_index (xedges L)) ra) (map (bin_index (yedges L)) dec)"
  have len: "length (Counts L) = nat (nx L)" using s(1) by (simp add: shape_def nrows_def)
  have C: "Counts L ! i ! j = real (length (filter (\<lambda>p. p = (i + 1, j + 1)) ps))"
    if "i < nat (nx L)" "j < nat (ny L)" for i j
    unfolding ps_def by (rule nth_histogram[OF h that])
  have "map (\<lambda>r. r ! j) (Counts L) = map (\<lambda>i. Counts L ! i ! j) [0..<nat (nx L)]" for j
    using map_by_index[of "\<lambda>r. r ! j" "Counts L"] by (simp only: len)
  then have "raw_hist L = map (\<lambda>j. map (\<lambda>i. Counts L ! i ! j) [0..<nat (nx L)]) [0..<nat (ny L)]"
    by (simp add: a(2) transpose_n_def)
  then have "sum_list (concat (raw_hist L)) =
      (\<Sum>j\<in>{0..<nat (ny L)}. \<Sum>i\<in>{0..<nat (nx L)}. Counts L ! i ! j)"
    by (simp add: sum_list_concat sum_list_upt comp_def)
  also have "\<dots> = (\<Sum>j\<in>{0..<nat (ny L)}. \<Sum>i\<in>{0..<nat (nx L)}.
      real (length (filter (\<lambda>p. p = (i + 1, j + 1)) ps)))"
    by (intro sum.cong refl) (simp add: C)
  also have "\<dots> = real (length ps)"
  proof (rule count_in_grid, rule ballI)
    fix p assume "p \<in> set ps"
    then have "p \<in> set (map (\<lambda>(x, y). (bin_index (xedges L) x, bin_index (yedges L) y))
        (zip ra dec))" by (simp add: ps_def zip_map_map)
    then obtain x y where p: "p = (bin_index (xedges L) x, bin_index (yedges L) y)"
      "x \<in> set ra" "y \<in> set dec"
      by (auto elim: in_set_zipE)
    have "1 \<le> bin_index (xedges L) x \<and> bin_index (xedges L) x \<le> nat (nx L)"
      using bin_index_linspace(1,2)[OF n(1) e(1), of x] in_range_Min_Max[OF p(2)]
      by (simp only: e(3))
    moreover have "1 \<le> bin_index (yedges L) y \<and> bin_index (yedges L) y \<le> nat (ny L)"
      using bin_index_linspace(1,2)[OF n(2) e(2), of y] in_range_Min_Max[OF p(3)]
      by (simp only: e(4))
    ultimately show "1 \<le> fst p \<and> fst p \<le> nat (nx L) \<and> 1 \<le> snd p \<and> snd p \<le> nat (ny L)"
      by (simp add: p(1))
  qed
  also have "\<dots> = real (length ra)" using b(3) by (simp add: ps_def)
  finally show ?thesis .
qed

subsection \<open>Float inputs\<close>

lemma fold_fmin2_Fin: "fold fmin2 (map Fin xs) (Fin x) = Fin (fold min xs x)"
  by (induction xs arbitrary: x) (simp_all add: fmin2_def min_def)

lemma fold_fmax2_Fin: "fold fmax2 (map Fin xs) (Fin x) = Fin (fold max xs x)"
  by (induction xs arbitrary: x) (simp_all add: fmax2_def max_def)

lemma filter_not_NaN_Fin: "filter (\<lambda>v. v \<noteq> NaN) (map Fin a) = map Fin a"
  by (induction a) simp_all

lemma reduce_Fin:
  assumes "a \<noteq> []"
  shows "reduce fmin2 kind (map Fin a) = Inr (Fin (Min (set a)))"
    and "reduce fmax2 kind (map Fin a) = Inr (Fin (Max (set a)))"
proof -
  obtain x xs where a: "a = x # xs" using assms by (cases a) auto
  have n: "NaN \<notin> set (map Fin a)" by auto
  have mn: "fold fmin2 (tl (map Fin a)) (hd (map Fin a)) = Fin (Min (set a))"
    by (simp add: a fold_fmin2_Fin Min.set_eq_fold del: set_simps)
  have mx: "fold fmax2 (tl (map Fin a)) (hd (map Fin a)) = Fin (Max (set a))"
    by (simp add: a fold_fmax2_Fin Max.set_eq_fold del: set_simps)
  show "reduce fmin2 kind (map Fin a) = Inr (Fin (Min (set a)))"
    using assms n mn by (cases kind) (simp_all add: reduce_def filter_not_NaN_Fin Let_def)
  show "reduce fmax2 kind (map Fin a) = Inr (Fin (Max (set a)))"
    using assms n mx by (cases kind) (simp_all add: reduce_def filter_not_NaN_Fin Let_def)
qed

lemma reduce_Inl: "reduce f kind a = Inl e \<Longrightarrow> e = ValueError"
  by (cases kind) (auto simp: reduce_def Let_def split: if_splits)

lemma float_fails_if_checks_fail:
  assumes "\<And>b. histogram2d_checks ra dec b = Inl ValueError"
  shows "dwarf_filter_float kind cv ra dec fs fb = Inl ValueError"
proof (cases "reduce fmin2 kind dec")
  case (Inl e)
  then show ?thesis using reduce_Inl[OF Inl] by (simp add: dwarf_filter_float_def bind_simps)
next
  case ymin: (Inr ymin)
  show ?thesis
  proof (cases "reduce fmax2 kind dec")
    case (Inl e)
    then show ?thesis using reduce_Inl[OF Inl] ymin
      by (simp add: dwarf_filter_float_def bind_simps)
  next
    case ymax: (Inr ymax)
    show ?thesis
    proof (cases "reduce fmax2 kind ra")
      case (Inl e)
      then show ?thesis using reduce_Inl[OF Inl] ymin ymax
        by (simp add: dwarf_filter_float_def bind_simps)
    next
      case xmax: (Inr xmax)
      show ?thesis
      proof (cases "reduce fmin2 kind ra")
        case (Inl e)
        then show ?thesis using reduce_Inl[OF Inl] ymin ymax xmax
          by (simp add: dwarf_filter_float_def bind_simps)
      next
        case xmin: (Inr xmin)
        show ?thesis
          by (simp add: dwarf_filter_float_def ymin ymax xmax xmin bind_simps Let_def assms)
      qed
    qed
  qed
qed

lemma float_unequal:
  "length ra \<noteq> length dec \<Longrightarrow> dwarf_filter_float kind cv ra dec fs fb = Inl ValueError"
  by (rule float_fails_if_checks_fail) (simp add: histogram2d_checks_def)

lemma float_not_finite:
  "\<not> list_all is_Fin ra \<or> \<not> list_all is_Fin dec \<Longrightarrow>
   dwarf_filter_float kind cv ra dec fs fb = Inl ValueError"
  by (rule float_fails_if_checks_fail) (auto simp: histogram2d_checks_def)

lemma float_empty:
  assumes "ra = [] \<or> dec = []"
  shows "dwarf_filter_float kind cv ra dec fs fb = Inl ValueError"
proof (cases "length ra = length dec")
  case False
  then show ?thesis by (rule float_unequal)
next
  case True
  then have e: "ra = []" "dec = []" using assms by auto
  show ?thesis
    by (cases kind)
       (simp_all add: e dwarf_filter_float_def reduce_def fsub_def histogram2d_checks_def
          bind_simps Let_def)
qed

lemma float_finite:
  "dwarf_filter_float kind cv (map Fin ra) (map Fin dec) fs fb = dwarf_filter cv ra dec fs fb"
proof (cases "ra = [] \<or> dec = []")
  case True
  then have "dwarf_filter_float kind cv (map Fin ra) (map Fin dec) fs fb = Inl ValueError"
    by (intro float_empty) simp
  moreover have "dwarf_filter_locals cv ra dec fs fb = Inl ValueError"
    using True locals_empty_dec[of cv ra fs fb] locals_empty_ra[of dec cv fs fb] by auto
  ultimately show ?thesis by (simp add: dwarf_filter_Inl)
next
  case False
  then have ne: "ra \<noteq> []" "dec \<noteq> []" by simp_all
  have m: "map the_Fin (map Fin ra) = ra" "map the_Fin (map Fin dec) = dec"
    by (simp_all add: comp_def)
  have f: "list_all is_Fin (map Fin ra)" "list_all is_Fin (map Fin dec)"
    by (simp_all add: list_all_iff)
  have "dwarf_filter_float kind cv (map Fin ra) (map Fin dec) fs fb =
      bind (histogram2d_checks (map Fin ra) (map Fin dec) (xbins ra dec, ybins dec))
        (\<lambda>_. dwarf_filter cv ra dec fs fb)"
    unfolding dwarf_filter_float_def reduce_Fin[OF ne(1)] reduce_Fin[OF ne(2)] bind_simps m
    by (simp add: Let_def fsub_def xbins_def ybins_def midrange_def)
  also have "\<dots> = dwarf_filter cv ra dec fs fb"
  proof (cases "length ra \<noteq> length dec \<or> xbins ra dec < 1 \<or> ybins dec < 1")
    case True
    have "dwarf_filter cv ra dec fs fb = Inl ValueError"
      using locals_histogram_fails[OF ne histogram2d_fails[OF True]] by (rule dwarf_filter_Inl)
    moreover have "histogram2d_checks (map Fin ra) (map Fin dec) (xbins ra dec, ybins dec)
        = Inl ValueError"
      using True by (auto simp: histogram2d_checks_def)
    ultimately show ?thesis by (simp add: bind_simps)
  next
    case False
    then have "histogram2d_checks (map Fin ra) (map Fin dec) (xbins ra dec, ybins dec) = Inr ()"
      using f by (simp add: histogram2d_checks_def)
    then show ?thesis by (simp add: bind_simps)
  qed
  finally show ?thesis .
qed

lemma float_no_bins:
  assumes "xbins ra dec < 1 \<or> ybins dec < 1"
  shows "dwarf_filter_float kind cv (map Fin ra) (map Fin dec) fs fb = Inl ValueError"
proof (cases "ra = [] \<or> dec = []")
  case True
  then show ?thesis by (intro float_empty) simp
next
  case False
  then have "histogram2d ra dec (xbins ra dec, ybins dec) = Inl ValueError"
    using assms by (intro histogram2d_fails) auto
  then have "dwarf_filter cv ra dec fs fb = Inl ValueError"
    using False locals_histogram_fails dwarf_filter_Inl by simp
  then show ?thesis by (simp add: float_finite)
qed

section \<open>The statements of the specification\<close>

text \<open>
  C1 (as stated, refuted): \<open>dwarf_filter\<close> would reject a degenerate point set with an
  \<open>InvalidInputError\<close>, raised before any numerical work. On two points that are both at
  (RA, Dec) = (1, 2), passed as arrays or as Series, the bin counts are computed (both
  are 0) and the error is the \<open>ValueError\<close> of the numeric library.
\<close>

theorem invalid_input_error_counterexample:
  "dwarf_filter_float Ndarray example_cv [Fin 1, Fin 1] [Fin 2, Fin 2] 2 20 = Inl ValueError \<and>
   dwarf_filter_float Series example_cv [Fin 1, Fin 1] [Fin 2, Fin 2] 2 20 = Inl ValueError \<and>
   dwarf_filter_float Ndarray example_cv [Fin 1, Fin 1] [Fin 2, Fin 2] 2 20
     \<noteq> Inl InvalidInputError \<and>
   dwarf_filter_float Series example_cv [Fin 1, Fin 1] [Fin 2, Fin 2] 2 20
     \<noteq> Inl InvalidInputError \<and>
   xbins [1, 1] [2, 2] = 0 \<and> ybins [2, 2] = 0"
proof -
  have b: "xbins [1, 1] [2, 2] = 0" "ybins [2, 2] = 0"
    by (simp_all add: xbins_def ybins_def rint_0)
  then have "dwarf_filter_float kind example_cv (map Fin [1, 1]) (map Fin [2, 2]) 2 20
      = Inl ValueError" for kind
    by (intro float_no_bins) simp
  then show ?thesis using b by simp
qed

text \<open>
  C1 (amended): \<open>dwarf_filter\<close> raises a \<open>ValueError\<close>, the error of the numeric library
  (the function has no check of its own and there is no \<open>InvalidInputError\<close>), and returns
  no partial result, whenever the ra/dec sequences are empty, of unequal length, contain
  values that are not finite, or yield zero bins (any bin count below one) in either axis;
  in particular, for every point set whose (RA, Dec) values are all identical the bin
  count is zero in both axes and the call is rejected rather than producing a histogram.
  This holds for arrays and for Series.
\<close>

theorem invalid_input_raises_ValueError:
  "((ra = [] \<or> dec = [] \<or> length ra \<noteq> length dec \<or>
     \<not> list_all is_Fin ra \<or> \<not> list_all is_Fin dec) \<longrightarrow>
      dwarf_filter_float kind cv ra dec fwhm_small fwhm_big = Inl ValueError) \<and>
   ((xbins a d < 1 \<or> ybins d < 1) \<longrightarrow>
      dwarf_filter_float kind cv (map Fin a) (map Fin d) fwhm_small fwhm_big = Inl ValueError) \<and>
   (a \<noteq> [] \<and> d \<noteq> [] \<and> (\<forall>v\<in>set a. v = r0) \<and> (\<forall>v\<in>set d. v = d0) \<longrightarrow>
      xbins a d = 0 \<and> ybins d = 0 \<and>
      dwarf_filter_float kind cv (map Fin a) (map Fin d) fwhm_small fwhm_big = Inl ValueError)"
proof (intro conjI impI)
  assume "ra = [] \<or> dec = [] \<or> length ra \<noteq> length dec \<or>
     \<not> list_all is_Fin ra \<or> \<not> list_all is_Fin dec"
  then consider "ra = [] \<or> dec = []" | "length ra \<noteq> length dec"
    | "\<not> list_all is_Fin ra \<or> \<not> list_all is_Fin dec" by blast
  then show "dwarf_filter_float kind cv ra dec fwhm_small fwhm_big = Inl ValueError"
    by cases (rule float_empty float_unequal float_not_finite; assumption)+
next
  assume "xbins a d < 1 \<or> ybins d < 1"
  then show "dwarf_filter_float kind cv (map Fin a) (map Fin d) fwhm_small fwhm_big
      = Inl ValueError"
    by (rule float_no_bins)
next
  assume c: "a \<noteq> [] \<and> d \<noteq> [] \<and> (\<forall>v\<in>set a. v = r0) \<and> (\<forall>v\<in>set d. v = d0)"
  then have b: "xbins a d = 0" "ybins d = 0"
    using constant_bins[of a d r0 d0] by simp_all
  then show "xbins a d = 0" "ybins d = 0" by simp_all
  show "dwarf_filter_float kind cv (map Fin a) (map Fin d) fwhm_small fwhm_big
      = Inl ValueError"
    using b by (intro float_no_bins) simp
qed

theorem invalid_input_raises_ValueError_witness:
  "dwarf_filter_float Series example_cv [] [] 2 20 = Inl ValueError \<and>
   dwarf_filter_float Ndarray example_cv [] [] 2 20 = Inl ValueError \<and>
   dwarf_filter_float Ndarray example_cv [Fin 1] [Fin 1, Fin 2] 2 20 = Inl ValueError \<and>
   dwarf_filter_float Series example_cv [Fin 0, NaN] [Fin 0, Fin 1] 2 20 = Inl ValueError \<and>
   dwarf_filter_float Ndarray example_cv [Fin 0, PInf] [Fin 0, Fin 1] 2 20 = Inl ValueError \<and>
   xbins [0, 1 / 1000] [- 1, 1] = 0 \<and>
   dwarf_filter_float Series example_cv [Fin 0, Fin (1 / 1000)] [Fin (- 1), Fin 1] 2 20
     = Inl ValueError \<and>
   xbins [1, 1] [2, 2] = 0 \<and> ybins [2, 2] = 0 \<and>
   dwarf_filter_float Series example_cv [Fin 1, Fin 1] [Fin 2, Fin 2] 2 20 = Inl ValueError"
proof -
  have 1: "dwarf_filter_float Series example_cv [] [] 2 20 = Inl ValueError"
    using invalid_input_raises_ValueError[of "[]" "[]" Series example_cv 2 20 "[]" "[]" 0 0]
    by simp
  have 2: "dwarf_filter_float Ndarray example_cv [] [] 2 20 = Inl ValueError"
    using invalid_input_raises_ValueError[of "[]" "[]" Ndarray example_cv 2 20 "[]" "[]" 0 0]
    by simp
  have 3: "dwarf_filter_float Ndarray example_cv [Fin 1] [Fin 1, Fin 2] 2 20 = Inl ValueError"
    using invalid_input_raises_ValueError[of "[Fin 1]" "[Fin 1, Fin 2]" Ndarray example_cv 2 20
        "[]" "[]" 0 0]
    by simp
  have 4: "dwarf_filter_float Series example_cv [Fin 0, NaN] [Fin 0, Fin 1] 2 20 = Inl ValueError"
    using invalid_input_raises_ValueError[of "[Fin 0, NaN]" "[Fin 0, Fin 1]" Series example_cv
        2 20 "[]" "[]" 0 0]
    by simp
  have 5: "dwarf_filter_float Ndarray example_cv [Fin 0, PInf] [Fin 0, Fin 1] 2 20
      = Inl ValueError"
    using invalid_input_raises_ValueError[of "[Fin 0, PInf]" "[Fin 0, Fin 1]" Ndarray example_cv
        2 20 "[]" "[]" 0 0]
    by simp
  have x: "xbins [0, 1 / 1000] [- 1, 1] = 0"
    by (simp add: xbins_def midrange_def rint_def astype_int64_def Let_def)
  have 6: "dwarf_filter_float Series example_cv [Fin 0, Fin (1 / 1000)] [Fin (- 1), Fin 1] 2 20
      = Inl ValueError"
    using invalid_input_raises_ValueError[of "[]" "[]" Series example_cv 2 20
        "[0, 1 / 1000]" "[- 1, 1]" 0 0] x
    by simp
  have 7: "xbins [1, 1] [2, 2] = 0 \<and> ybins [2, 2] = 0 \<and>
      dwarf_filter_float Series example_cv [Fin 1, Fin 1] [Fin 2, Fin 2] 2 20 = Inl ValueError"
    using invalid_input_raises_ValueError[of "[]" "[]" Series example_cv 2 20
        "[1, 1]" "[2, 2]" 1 2]
    by simp
  from 1 2 3 4 5 x 6 7 show ?thesis by blast
qed

text \<open>
  C2 (as stated, refuted): the standard deviations of the two kernels would be
  \<open>fwhm_small / 2.354820045\<close> and \<open>fwhm_big / 2.354820045\<close>. In the run of the example,
  with widths 2 and 20, they are \<open>40 / 47\<close> and \<open>400 / 47\<close>, that is \<open>2 / 2.35\<close> and
  \<open>20 / 2.35\<close>.
\<close>

theorem kernel_sigma_counterexample:
  "dwarf_filter_locals example_cv example_ra example_dec 2 20 = Inr example_locals \<and>
   x_stddev (kernel_small example_locals) \<noteq> 2 / (2354820045 / 1000000000) \<and>
   x_stddev (kernel_big example_locals) \<noteq> 20 / (2354820045 / 1000000000)"
  by (simp add: example_run) (simp add: example_locals_def)

text \<open>
  C2 (amended): in every run of \<open>dwarf_filter\<close> that returns, the two kernels are
  isotropic with standard deviations \<open>fwhm_small / 2.35\<close> and \<open>fwhm_big / 2.35\<close>, and the
  two smoothed arrays are the convolutions of the histogram with these kernels.
\<close>

theorem kernel_sigma:
  assumes "dwarf_filter_locals cv ra dec fwhm_small fwhm_big = Inr L"
  shows "x_stddev (kernel_small L) = fwhm_small / (235 / 100) \<and>
         y_stddev (kernel_small L) = fwhm_small / (235 / 100) \<and>
         x_stddev (kernel_big L) = fwhm_big / (235 / 100) \<and>
         y_stddev (kernel_big L) = fwhm_big / (235 / 100) \<and>
         conv_small L = convolve cv (raw_hist L) (kernel_small L) \<and>
         conv_big L = convolve cv (raw_hist L) (kernel_big L)"
  using locals_arrays(3-6)[OF assms] by (simp add: Gaussian2DKernel_def)

theorem kernel_sigma_witness:
  "dwarf_filter_locals example_cv example_ra example_dec 2 20 = Inr example_locals \<and>
   x_stddev (kernel_small example_locals) = 2 / (235 / 100) \<and>
   x_stddev (kernel_big example_locals) = 20 / (235 / 100) \<and>
   conv_small example_locals = convolve example_cv (raw_hist example_locals) (kernel_small example_locals)"
  using kernel_sigma[OF example_run] example_run by simp

text \<open>
  C3 (as stated, refuted): the declination in the cosine correction would be the
  arithmetic mean of the declinations. The declinations of the example have arithmetic
  mean \<open>1 / 360\<close>; the run uses 0, the middle of their range.
\<close>

theorem mean_dec_counterexample:
  "dwarf_filter_locals example_cv example_ra example_dec 2 20 = Inr example_locals \<and>
   ymean example_locals = 0 \<and> arith_mean example_dec = 1 / 360 \<and>
   ymean example_locals \<noteq> arith_mean example_dec"
  by (simp add: example_run) (simp add: example_locals_def arith_mean_def example_dec_def)

text \<open>
  C3 (amended): in every run that returns, the declination used in the cosine correction
  of the RA extent is the midpoint of the declination range, (min + max) / 2, and the RA
  extent is corrected by the cosine of that value.
\<close>

theorem mean_dec_is_midrange:
  assumes "dwarf_filter_locals cv ra dec fwhm_small fwhm_big = Inr L"
  shows "ymean L = midrange dec \<and>
         xdiff_angular L = (Max (set ra) - Min (set ra)) * cos (midrange dec * (pi / 180)) \<and>
         nx L = xbins ra dec"
proof -
  note g = locals_scalars[OF assms]
  have m: "ymean L = midrange dec" by (simp only: g(3) midrange_def)
  have x: "xdiff_angular L = (Max (set ra) - Min (set ra)) * cos (midrange dec * (pi / 180))"
    by (simp only: g(7) m)
  have "nx L = xbins ra dec" by (simp only: g(9) g(8) x xbins_def)
  with m x show ?thesis by (intro conjI)
qed

theorem mean_dec_is_midrange_witness:
  "dwarf_filter_locals example_cv example_ra example_dec 2 20 = Inr example_locals \<and>
   ymean example_locals = midrange example_dec \<and> midrange example_dec = 0 \<and>
   nx example_locals = xbins example_ra example_dec"
  using mean_dec_is_midrange[OF example_run] example_run
  by (simp add: midrange_def example_dec_def)

text \<open>
  C4: for every input on which \<open>dwarf_filter\<close> returns, the filtered field it returns
  is, entry by entry, the histogram convolved with the small kernel minus the histogram
  convolved with the big kernel, and has the shape of the histogram.
\<close>

theorem filtered_field_is_difference:
  assumes "dwarf_filter_locals cv ra dec fwhm_small fwhm_big = Inr L"
  shows "dwarf_filter cv ra dec fwhm_small fwhm_big =
           Inr (raw_hist L, extent L, delta L, clipped L, sigma L) \<and>
         conv_small L = convolve cv (raw_hist L) (kernel_small L) \<and>
         conv_big L = convolve cv (raw_hist L) (kernel_big L) \<and>
         shape (delta L) = shape (raw_hist L) \<and> rect (delta L) \<and>
         (\<forall>i<nrows (raw_hist L). \<forall>j<ncols (raw_hist L).
            delta L ! i ! j = conv_small L ! i ! j - conv_big L ! i ! j)"
proof -
  note a = locals_arrays[OF assms] and s = locals_shapes[OF assms]
  have eq: "shape (conv_small L) = shape (conv_big L)" using s(5,7) by simp
  have "delta L ! i ! j = conv_small L ! i ! j - conv_big L ! i ! j"
    if "i < nrows (raw_hist L)" "j < ncols (raw_hist L)" for i j
  proof -
    have "i < nrows (conv_small L)" "j < ncols (conv_small L)"
      using that s(3,5) by (simp_all add: shape_def)
    then show ?thesis
      using nth_arr_sub[OF eq s(6) s(8)] by (simp add: a(8) a(7))
  qed
  then show ?thesis
    using dwarf_filter_returns[OF assms] a(5,6) s(3,9,10) by simp
qed

theorem filtered_field_is_difference_witness:
  "dwarf_filter example_cv example_ra example_dec 2 20 =
     Inr ([[1, 2]], (0, 1 / 30, - (1 / 120), 1 / 120), [[423 / 400, 423 / 200]],
          [[1269 / 800, 423 / 200]], 423 / 800) \<and>
   shape (delta example_locals) = (1, 2) \<and>
   delta example_locals ! 0 ! 1 = conv_small example_locals ! 0 ! 1 - conv_big example_locals ! 0 ! 1"
proof -
  note t = filtered_field_is_difference[OF example_run]
  have "(0::nat) < nrows (raw_hist example_locals)" "(1::nat) < ncols (raw_hist example_locals)"
    by (simp_all add: example_locals_def nrows_def ncols_def)
  with t have "delta example_locals ! 0 ! 1 =
      conv_small example_locals ! 0 ! 1 - conv_big example_locals ! 0 ! 1" by blast
  moreover have "shape (delta example_locals) = (1, 2)"
    using t by (simp add: example_locals_def shape_def nrows_def ncols_def)
  moreover have "dwarf_filter example_cv example_ra example_dec 2 20 =
     Inr ([[1, 2]], (0, 1 / 30, - (1 / 120), 1 / 120), [[423 / 400, 423 / 200]],
          [[1269 / 800, 423 / 200]], 423 / 800)"
    using t by (simp add: example_locals_def)
  ultimately show ?thesis by blast
qed

text \<open>
  C5: for every input on which \<open>dwarf_filter\<close> returns, the clipped field it returns is
  the filtered field with every entry strictly below the mean of the filtered field
  replaced by that mean and every other entry unchanged; the floor is the mean, not zero.
\<close>

theorem clipped_field_is_floor_at_mean:
  assumes "dwarf_filter_locals cv ra dec fwhm_small fwhm_big = Inr L"
  shows "dwarf_filter cv ra dec fwhm_small fwhm_big =
           Inr (raw_hist L, extent L, delta L, clipped L, sigma L) \<and>
         floorv L = np_mean (delta L) \<and>
         clipped L = floor_at (np_mean (delta L)) (delta L) \<and>
         shape (clipped L) = shape (delta L) \<and>
         (\<forall>i<nrows (delta L). \<forall>j<ncols (delta L).
            clipped L ! i ! j =
              (if delta L ! i ! j < np_mean (delta L) then np_mean (delta L)
               else delta L ! i ! j))"
proof -
  note a = locals_arrays[OF assms] and s = locals_shapes[OF assms]
  have c: "clipped L = floor_at (np_mean (delta L)) (delta L)"
    by (simp add: a(13) a(12) a(9) mask_assign_less_mask)
  have "clipped L ! i ! j =
      (if delta L ! i ! j < np_mean (delta L) then np_mean (delta L) else delta L ! i ! j)"
    if "i < nrows (delta L)" "j < ncols (delta L)" for i j
    using that length_row[OF s(10) that(1)] by (subst c) (simp add: nth_floor_at)
  then show ?thesis
    using dwarf_filter_returns[OF assms] c s(9,11) a(12) a(9) by simp
qed

theorem clipped_field_is_floor_at_mean_witness:
  "dwarf_filter_locals example_cv example_ra example_dec 2 20 = Inr example_locals \<and>
   np_mean (delta example_locals) = 1269 / 800 \<and>
   delta example_locals = [[423 / 400, 423 / 200]] \<and>
   clipped example_locals = [[1269 / 800, 423 / 200]] \<and>
   clipped example_locals ! 0 ! 0 = np_mean (delta example_locals) \<and>
   clipped example_locals ! 0 ! 1 = delta example_locals ! 0 ! 1"
proof -
  note t = clipped_field_is_floor_at_mean[OF example_run]
  have m: "np_mean (delta example_locals) = 1269 / 800"
    by (simp add: example_locals_def np_mean_def)
  have i: "(0::nat) < nrows (delta example_locals)" "(0::nat) < ncols (delta example_locals)"
     "(1::nat) < ncols (delta example_locals)"
    by (simp_all add: example_locals_def nrows_def ncols_def)
  have "clipped example_locals ! 0 ! 0 =
      (if delta example_locals ! 0 ! 0 < np_mean (delta example_locals)
       then np_mean (delta example_locals) else delta example_locals ! 0 ! 0)"
    using t i by blast
  moreover have "clipped example_locals ! 0 ! 1 =
      (if delta example_locals ! 0 ! 1 < np_mean (delta example_locals)
       then np_mean (delta example_locals) else delta example_locals ! 0 ! 1)"
    using t i by blast
  ultimately show ?thesis
    using m example_run by (simp add: example_locals_def)
qed

text \<open>
  C6: for every input on which \<open>dwarf_filter\<close> returns, the entry of the returned
  histogram in row \<open>j\<close> and column \<open>i\<close> is the number of input points whose RA falls in
  RA bin \<open>i\<close> and whose Dec falls in Dec bin \<open>j\<close>, and the entries of the histogram add up
  to the number of input points.
\<close>

theorem histogram_counts_points:
  assumes "dwarf_filter_locals cv ra dec fwhm_small fwhm_big = Inr L"
  shows "dwarf_filter cv ra dec fwhm_small fwhm_big =
           Inr (raw_hist L, extent L, delta L, clipped L, sigma L) \<and>
         shape (raw_hist L) = (nat (ny L), nat (nx L)) \<and>
         (\<forall>i<nat (nx L). \<forall>j<nat (ny L).
            raw_hist L ! j ! i = real (bin_count (xedges L) (yedges L) i j ra dec)) \<and>
         sum_list (concat (raw_hist L)) = real (length ra)"
proof -
  have len: "length (Counts L) = nat (nx L)"
    using locals_shapes(1)[OF assms] by (simp add: shape_def nrows_def)
  have "raw_hist L ! j ! i = real (bin_count (xedges L) (yedges L) i j ra dec)"
    if "i < nat (nx L)" "j < nat (ny L)" for i j
    using that len locals_bin_count[OF assms that]
    by (simp add: locals_arrays(2)[OF assms] nth_transpose_n)
  then show ?thesis
    using dwarf_filter_returns[OF assms] locals_shapes(3)[OF assms] locals_total[OF assms]
    by blast
qed

theorem histogram_counts_points_witness:
  "dwarf_filter_locals example_cv example_ra example_dec 2 20 = Inr example_locals \<and>
   raw_hist example_locals = [[1, 2]] \<and>
   bin_count (xedges example_locals) (yedges example_locals) 0 0 example_ra example_dec = 1 \<and>
   bin_count (xedges example_locals) (yedges example_locals) 1 0 example_ra example_dec = 2 \<and>
   sum_list (concat (raw_hist example_locals)) = real (length example_ra) \<and>
   length example_ra = 3"
proof -
  note t = histogram_counts_points[OF example_run]
  have n: "(0::nat) < nat (nx example_locals)" "(1::nat) < nat (nx example_locals)"
    "(0::nat) < nat (ny example_locals)"
    by (simp_all add: example_locals_def)
  have "raw_hist example_locals ! 0 ! 0 =
      real (bin_count (xedges example_locals) (yedges example_locals) 0 0 example_ra example_dec)"
    using t n by blast
  moreover have "raw_hist example_locals ! 0 ! 1 =
      real (bin_count (xedges example_locals) (yedges example_locals) 1 0 example_ra example_dec)"
    using t n by blast
  moreover have "raw_hist example_locals = [[1, 2]]" by (simp add: example_locals_def)
  moreover have "sum_list (concat (raw_hist example_locals)) = real (length example_ra)"
    using t by blast
  moreover have "length example_ra = 3" by (simp add: example_ra_def)
  ultimately show ?thesis using example_run by simp
qed

text \<open>
  C7: the cell gives every peak the sky coordinates \<open>lo + i * (hi - lo) / N\<close>, with \<open>i\<close> the
  peak's pixel index in the axis, \<open>N\<close> the number of bins of the field in that axis (columns
  for RA, rows for Dec) and \<open>[lo, hi]\<close> the bounds of the extent in that axis; the
  coordinates of a peak inside the field lie within the extent.
\<close>

theorem peak_coordinates_linear:
  assumes "lo < hi" "lo2 < hi2" "0 < nrows field" "0 < ncols field"
    and "scs field = (m, median, sd)"
    and "fp field (median + 10) (small_k * 2) = Some tbl"
    and "\<forall>p\<in>set tbl. x_peak p < ncols field \<and> y_peak p < nrows field"
  shows "find_peaks_cell scs fp field (lo, hi, lo2, hi2) small_k =
     Inr (map (\<lambda>p. \<lparr>x_peak = x_peak p, y_peak = y_peak p, peak_value = peak_value p,
                     tbl_ra = lo + real (x_peak p) * ((hi - lo) / real (ncols field)),
                     tbl_dec = lo2 + real (y_peak p) * ((hi2 - lo2) / real (nrows field))\<rparr>)
            tbl) \<and>
     (\<forall>p\<in>set tbl.
        lo \<le> lo + real (x_peak p) * ((hi - lo) / real (ncols field)) \<and>
        lo + real (x_peak p) * ((hi - lo) / real (ncols field)) < hi \<and>
        lo2 \<le> lo2 + real (y_peak p) * ((hi2 - lo2) / real (nrows field)) \<and>
        lo2 + real (y_peak p) * ((hi2 - lo2) / real (nrows field)) < hi2)"
proof -
  have "\<forall>p\<in>set tbl. x_peak p \<le> ncols field \<and> y_peak p \<le> nrows field"
    using assms(7) by (auto intro: less_imp_le)
  from cell_run[where scs = scs and fp = fp and field = field, OF assms(1-6) this] show ?thesis
    using assms(7) linear_in_range[OF assms(1) assms(4)] linear_in_range[OF assms(2) assms(3)]
    by blast
qed

theorem peak_coordinates_linear_witness:
  "find_peaks_cell (\<lambda>a. (0, 0, 0))
     (\<lambda>d t b. Some [\<lparr>x_peak = 1, y_peak = 0, peak_value = d ! 0 ! 1\<rparr>])
     (clipped example_locals) (extent example_locals) 2 =
   Inr [\<lparr>x_peak = 1, y_peak = 0, peak_value = 423 / 200, tbl_ra = 1 / 60, tbl_dec = - (1 / 120)\<rparr>] \<and>
   (0::real) \<le> 1 / 60 \<and> (1::real) / 60 < 1 / 30"
proof -
  have f: "clipped example_locals = [[1269 / 800, 423 / 200]]"
    and e: "extent example_locals = (0, 1 / 30, - (1 / 120), 1 / 120)"
    by (simp_all add: example_locals_def)
  have h: "(0::real) < 1 / 30" "- (1 / 120) < (1 / 120 :: real)"
    "0 < nrows [[1269 / 800, 423 / 200]]" "0 < ncols [[1269 / 800, 423 / 200]]"
    "(\<lambda>a::array2. (0::real, 0::real, 0::real)) [[1269 / 800, 423 / 200]] = (0, 0, 0)"
    "(\<lambda>d t b. Some [\<lparr>x_peak = 1, y_peak = 0, peak_value = d ! 0 ! 1\<rparr>])
        [[1269 / 800, 423 / 200]] ((0::real) + 10) ((2::real) * 2)
      = Some [\<lparr>x_peak = 1, y_peak = 0, peak_value = 423 / 200\<rparr>]"
    by (simp_all add: nrows_def ncols_def)
  have p: "\<forall>p\<in>set [\<lparr>x_peak = 1, y_peak = 0, peak_value = 423 / 200 :: real\<rparr>].
           x_peak p < ncols [[1269 / 800, 423 / 200]] \<and> y_peak p < nrows [[1269 / 800, 423 / 200]]"
    by (simp add: nrows_def ncols_def)
  show ?thesis
    using peak_coordinates_linear[where scs = "\<lambda>a. (0, 0, 0)"
        and fp = "\<lambda>d t b. Some [\<lparr>x_peak = 1, y_peak = 0, peak_value = d ! 0 ! 1\<rparr>]"
        and field = "[[1269 / 800, 423 / 200]]", OF h p]
    by (simp add: f e nrows_def ncols_def)
qed

text \<open>
  C8 (as stated, refuted): with no cell above the threshold the cell would return an
  empty sequence of candidates and no error. On the clipped field of the example and the
  threshold 10, which no cell exceeds, the peak finder returns \<open>None\<close> and the cell ends in
  a \<open>TypeError\<close>.
\<close>

theorem empty_sequence_counterexample:
  "example_finder [[1269 / 800, 423 / 200]] (0 + 10) (2 * 2) = None \<and>
   find_peaks_cell (\<lambda>a. (0, 0, 0)) example_finder [[1269 / 800, 423 / 200]]
     (0, 1 / 30, - (1 / 120), 1 / 120) 2 = Inl TypeError \<and>
   find_peaks_cell (\<lambda>a. (0, 0, 0)) example_finder [[1269 / 800, 423 / 200]]
     (0, 1 / 30, - (1 / 120), 1 / 120) 2 \<noteq> Inr []"
proof -
  have n: "example_finder [[1269 / 800, 423 / 200]] 10 4 = None"
    by (simp add: example_finder_def nrows_def ncols_def upt_rec numeral_2_eq_2)
  have "find_peaks_cell (\<lambda>a. (0, 0, 0)) example_finder [[1269 / 800, 423 / 200]]
     (0, 1 / 30, - (1 / 120), 1 / 120) 2 = Inl TypeError"
    by (rule cell_on_None[where m = 0 and median = 0 and sd = 0])
       (simp_all add: n nrows_def ncols_def)
  with n show ?thesis by simp
qed

text \<open>
  C8 (amended): for every 2D field and every threshold that no cell's value exceeds, the
  peak finder returns \<open>None\<close>, not an empty table, and the cell, which subscripts the
  result without looking at it, ends in a \<open>TypeError\<close>: it returns no sequence of
  candidates, empty or not.
\<close>

theorem no_cell_above_threshold_TypeError:
  assumes "none_when_nothing_above fp"
    and "scs field = (m, median, sd)"
    and "\<forall>i<nrows field. \<forall>j<ncols field. field ! i ! j \<le> median + 10"
    and "lo < hi" "lo2 < hi2" "0 < nrows field" "0 < ncols field"
  shows "fp field (median + 10) (small_k * 2) = None \<and>
         find_peaks_cell scs fp field (lo, hi, lo2, hi2) small_k = Inl TypeError"
proof -
  have n: "fp field (median + 10) (small_k * 2) = None"
    using assms(1,3) unfolding none_when_nothing_above_def by blast
  from cell_on_None[where scs = scs and fp = fp and field = field, OF assms(4-7) assms(2) n] n
  show ?thesis by simp
qed

theorem no_cell_above_threshold_TypeError_witness:
  "none_when_nothing_above example_finder \<and>
   example_finder [[1269 / 800, 423 / 200]] (0 + 10) (2 * 2) = None \<and>
   find_peaks_cell (\<lambda>a. (0, 0, 0)) example_finder [[1269 / 800, 423 / 200]]
     (0, 1 / 30, - (1 / 120), 1 / 120) 2 = Inl TypeError"
proof -
  have c: "none_when_nothing_above example_finder"
    unfolding none_when_nothing_above_def
  proof (intro allI impI)
    fix data :: array2 and threshold box_size :: real
    assume "\<forall>i<nrows data. \<forall>j<ncols data. data ! i ! j \<le> threshold"
    then have "\<not> threshold < data ! i ! j" if "i < nrows data" "j < ncols data" for i j
      using that by (simp add: not_less)
    then show "example_finder data threshold box_size = None"
      by (simp add: example_finder_def)
  qed
  have s: "(\<lambda>a::array2. (0::real, 0::real, 0::real)) [[1269 / 800, 423 / 200]] = (0, 0, 0)"
    by simp
  have a: "\<forall>i<nrows [[1269 / 800, 423 / 200]]. \<forall>j<ncols [[1269 / 800, 423 / 200]].
          [[1269 / 800, 423 / 200]] ! i ! j \<le> (0::real) + 10"
    by (simp add: nrows_def ncols_def less_Suc_eq numeral_2_eq_2)
  have h: "(0::real) < 1 / 30" "- (1 / 120) < (1 / 120 :: real)"
    "0 < nrows [[1269 / 800, 423 / 200]]" "0 < ncols [[1269 / 800, 423 / 200]]"
    by (simp_all add: nrows_def ncols_def)
  from no_cell_above_threshold_TypeError[where scs = "\<lambda>a. (0, 0, 0)" and fp = example_finder
      and field = "[[1269 / 800, 423 / 200]]" and small_k = 2, OF c s a h] c
  show ?thesis by simp
qed

text \<open>
  C9: the flooring step does not change the filtered field. \<open>dwarf_filter\<close> returns the
  raw histogram, the filtered field and the clipped field as three distinct objects,
  all allocated by the call, and leaves every object that existed before untouched.
  After the call the filtered field is still the difference of the two convolutions,
  with its entries below the mean, while the clipped field holds the mean there; writing
  into the filtered field afterwards leaves the clipped field as it was, and the other
  way round.
\<close>

theorem flooring_keeps_filtered_field:
  assumes "dwarf_filter_locals cv ra dec fwhm_small fwhm_big = Inr L"
  shows "case dwarf_filter_store cv ra dec fwhm_small fwhm_big s of
           Inl e \<Rightarrow> False
         | Inr ((r, ext, d, c, sg), s') \<Rightarrow>
             r \<noteq> d \<and> r \<noteq> c \<and> d \<noteq> c \<and>
             length s \<le> r \<and> length s \<le> d \<and> length s \<le> c \<and>
             r < length s' \<and> d < length s' \<and> c < length s' \<and>
             take (length s) s' = s \<and>
             dwarf_filter cv ra dec fwhm_small fwhm_big =
               Inr (load s' r, ext, load s' d, load s' c, sg) \<and>
             load s' d = arr_sub (conv_small L) (conv_big L) \<and>
             load s' c = floor_at (np_mean (load s' d)) (load s' d) \<and>
             (\<forall>i<nrows (load s' d). \<forall>j<ncols (load s' d).
                load s' d ! i ! j < np_mean (load s' d) \<longrightarrow>
                  load s' c ! i ! j = np_mean (load s' d) \<and>
                  load s' d ! i ! j = conv_small L ! i ! j - conv_big L ! i ! j) \<and>
             (\<forall>a. load (overwrite s' c a) d = load s' d \<and>
                  load (overwrite s' c a) r = load s' r) \<and>
             (\<forall>a. load (overwrite s' d a) c = load s' c \<and>
                  load (overwrite s' d a) r = load s' r)"
proof -
  note a = locals_arrays[OF assms] and sh = locals_shapes[OF assms]
  let ?s' = "s @ [Counts L, raw_hist L, conv_big L, conv_small L, conv_delta L, delta L, clipped L]"
  have ld: "load ?s' (length s + 1) = raw_hist L" "load ?s' (length s + 5) = delta L"
    "load ?s' (length s + 6) = clipped L"
    by (simp_all add: load_def nth_append)
  have d: "delta L = arr_sub (conv_small L) (conv_big L)" by (simp only: a(8) a(7))
  have c: "clipped L = floor_at (np_mean (delta L)) (delta L)"
    by (simp add: a(13) a(12) a(9) mask_assign_less_mask)
  have eq: "shape (conv_small L) = shape (conv_big L)" using sh(5,7) by simp
  have e: "clipped L ! i ! j = np_mean (delta L) \<and>
           delta L ! i ! j = conv_small L ! i ! j - conv_big L ! i ! j"
    if "i < nrows (delta L)" "j < ncols (delta L)" "delta L ! i ! j < np_mean (delta L)" for i j
  proof -
    have "clipped L ! i ! j = np_mean (delta L)"
      using that length_row[OF sh(10) that(1)] by (subst c) (simp add: nth_floor_at)
    moreover have "i < nrows (conv_small L)" "j < ncols (conv_small L)"
      using that sh(5,9) by (simp_all add: shape_def)
    then have "delta L ! i ! j = conv_small L ! i ! j - conv_big L ! i ! j"
      using nth_arr_sub[OF eq sh(6) sh(8)] by (simp add: d)
    ultimately show ?thesis by simp
  qed
  have w: "load (overwrite ?s' (length s + 6) b) (length s + 5) = delta L"
    "load (overwrite ?s' (length s + 6) b) (length s + 1) = raw_hist L"
    "load (overwrite ?s' (length s + 5) b) (length s + 6) = clipped L"
    "load (overwrite ?s' (length s + 5) b) (length s + 1) = raw_hist L" for b
    by (simp_all add: load_def overwrite_def nth_append list_update_append)
  show ?thesis
    unfolding store_run[OF assms] sum.case prod.case ld w
    using dwarf_filter_returns[OF assms] d c e by simp
qed

theorem flooring_keeps_filtered_field_witness:
  "dwarf_filter_store example_cv example_ra example_dec 2 20 [] =
     Inr ((1, (0, 1 / 30, - (1 / 120), 1 / 120), 5, 6, 423 / 800),
          [[[1], [2]], [[1, 2]], [[47 / 400, 47 / 200]], [[47 / 40, 47 / 20]],
           [[423 / 400, 423 / 200]], [[423 / 400, 423 / 200]], [[1269 / 800, 423 / 200]]]) \<and>
   dwarf_filter_locals example_cv example_ra example_dec 2 20 = Inr example_locals \<and>
   arr_sub (conv_small example_locals) (conv_big example_locals) = [[423 / 400, 423 / 200]]"
proof -
  have r: "dwarf_filter_store example_cv example_ra example_dec 2 20 [] =
     Inr ((1, (0, 1 / 30, - (1 / 120), 1 / 120), 5, 6, 423 / 800),
          [[[1], [2]], [[1, 2]], [[47 / 400, 47 / 200]], [[47 / 40, 47 / 20]],
           [[423 / 400, 423 / 200]], [[423 / 400, 423 / 200]], [[1269 / 800, 423 / 200]]])"
    by (simp add: store_run[OF example_run]) (simp add: example_locals_def)
  show ?thesis
    using flooring_keeps_filtered_field[OF example_run, of "[]"] example_run
    by (simp add: r load_def)
qed

text \<open>
  C10: the three arrays \<open>dwarf_filter\<close> returns (raw histogram, filtered field, clipped
  field) all have the shape \<open>(ny, nx)\<close>, the transpose of the \<open>(nx, ny)\<close> array the
  histogram routine returns: the row index is the declination bin and the column index
  the RA bin. This is the orientation the peak cell assumes: dividing the RA extent by
  the number of columns and the Dec extent by the number of rows, its two coordinate
  vectors are the RA edges and the Dec edges of the histogram.
\<close>

theorem returned_arrays_shape_ny_nx:
  assumes "dwarf_filter_locals cv ra dec fwhm_small fwhm_big = Inr L"
  shows "dwarf_filter cv ra dec fwhm_small fwhm_big =
           Inr (raw_hist L, extent L, delta L, clipped L, sigma L) \<and>
         1 \<le> nx L \<and> 1 \<le> ny L \<and>
         shape (Counts L) = (nat (nx L), nat (ny L)) \<and>
         shape (raw_hist L) = (nat (ny L), nat (nx L)) \<and>
         shape (delta L) = (nat (ny L), nat (nx L)) \<and>
         shape (clipped L) = (nat (ny L), nat (nx L)) \<and>
         rect (raw_hist L) \<and> rect (delta L) \<and> rect (clipped L) \<and>
         (\<forall>i<nat (nx L). \<forall>j<nat (ny L). raw_hist L ! j ! i = Counts L ! i ! j) \<and>
         (case extent L of (x0, x1, y0, y1) \<Rightarrow>
            arange x0 (x1 + (x1 - x0) / real (snd (shape (clipped L))))
              ((x1 - x0) / real (snd (shape (clipped L)))) = Inr (xedges L) \<and>
            arange y0 (y1 + (y1 - y0) / real (fst (shape (clipped L))))
              ((y1 - y0) / real (fst (shape (clipped L)))) = Inr (yedges L))"
proof -
  note s = locals_shapes[OF assms] and b = locals_bins[OF assms]
    and e = locals_edges[OF assms] and a = locals_arrays[OF assms]
  have n: "0 < nat (nx L)" "0 < nat (ny L)" using b by simp_all
  have "length (Counts L) = nat (nx L)" using s(1) by (simp add: shape_def nrows_def)
  then have t: "raw_hist L ! j ! i = Counts L ! i ! j" if "i < nat (nx L)" "j < nat (ny L)" for i j
    using that by (simp add: a(2) nth_transpose_n)
  have x: "arange (Min (set ra)) (Max (set ra) + (Max (set ra) - Min (set ra)) / real (nat (nx L)))
              ((Max (set ra) - Min (set ra)) / real (nat (nx L))) = Inr (xedges L)"
    by (simp only: e(3) arange_linspace[OF n(1) e(1)])
  have y: "arange (Min (set dec)) (Max (set dec) + (Max (set dec) - Min (set dec)) / real (nat (ny L)))
              ((Max (set dec) - Min (set dec)) / real (nat (ny L))) = Inr (yedges L)"
    by (simp only: e(4) arange_linspace[OF n(2) e(2)])
  have c: "(case extent L of (x0, x1, y0, y1) \<Rightarrow>
            arange x0 (x1 + (x1 - x0) / real (snd (shape (clipped L))))
              ((x1 - x0) / real (snd (shape (clipped L)))) = Inr (xedges L) \<and>
            arange y0 (y1 + (y1 - y0) / real (fst (shape (clipped L))))
              ((y1 - y0) / real (fst (shape (clipped L)))) = Inr (yedges L))"
    using x y by (simp only: e(5) s(11) prod.case fst_conv snd_conv)
  show ?thesis
    using dwarf_filter_returns[OF assms] b(1,2) s(1,3,4,9,10,11,12) t c by blast
qed

theorem returned_arrays_shape_ny_nx_witness:
  "dwarf_filter_locals example_cv example_ra example_dec 2 20 = Inr example_locals \<and>
   nx example_locals = 2 \<and> ny example_locals = 1 \<and>
   shape (Counts example_locals) = (2, 1) \<and>
   shape (raw_hist example_locals) = (1, 2) \<and>
   shape (delta example_locals) = (1, 2) \<and>
   shape (clipped example_locals) = (1, 2) \<and>
   raw_hist example_locals ! 0 ! 1 = Counts example_locals ! 1 ! 0 \<and>
   arange 0 (1 / 30 + (1 / 30 - 0) / real 2) ((1 / 30 - 0) / real 2) = Inr [0, 1 / 60, 1 / 30]"
proof -
  note t = returned_arrays_shape_ny_nx[OF example_run]
  have n: "nx example_locals = 2" "ny example_locals = 1"
    "extent example_locals = (0, 1 / 30, - (1 / 120), 1 / 120)"
    "xedges example_locals = [0, 1 / 60, 1 / 30]"
    by (simp_all add: example_locals_def)
  have "(1::nat) < nat (nx example_locals)" "(0::nat) < nat (ny example_locals)"
    by (simp_all add: n)
  with t have "raw_hist example_locals ! 0 ! 1 = Counts example_locals ! 1 ! 0" by blast
  moreover have "shape (Counts example_locals) = (2, 1)" "shape (raw_hist example_locals) = (1, 2)"
    "shape (delta example_locals) = (1, 2)" "shape (clipped example_locals) = (1, 2)"
    using t by (simp_all add: n)
  moreover have "arange 0 (1 / 30 + (1 / 30 - 0) / real 2) ((1 / 30 - 0) / real 2)
      = Inr [0, 1 / 60, 1 / 30 :: real]"
    using t \<open>shape (clipped example_locals) = (1, 2)\<close> by (simp add: n)
  ultimately show ?thesis using example_run n by blast
qed

end
